theory Spec2Isabelle
  imports Main "HOL-Library.Sublist" "HOL-Library.Multiset"
begin

section \<open>buildenv: data model\<close>

text \<open>
  The program is one Go file, \<^verbatim>\<open>buildenv.go\<close>: the function \<^verbatim>\<open>GetVaultSecret\<close> and the
  action of the command-line application. Go strings are byte sequences, here \<open>string\<close>.
  A Go map is a partial function; a lookup of an absent key (also in a nil map) yields the
  zero value of the element type.
\<close>

type_synonym EnvVars = "string \<rightharpoonup> string"

type_synonym Secrets = "string \<rightharpoonup> string"

text \<open>The element type of \<^verbatim>\<open>Dcs\<close> in \<^verbatim>\<open>Config\<close>.\<close>

record Datacenter =
  dc_Vars :: EnvVars
  dc_Secrets :: Secrets

text \<open>The element type of \<^verbatim>\<open>Environments\<close> in \<^verbatim>\<open>Config\<close>.\<close>

record Environment =
  env_Vars :: EnvVars
  env_Secrets :: Secrets
  env_Dcs :: "string \<rightharpoonup> Datacenter"

record Config =
  Vars :: EnvVars
  Secrets :: Secrets
  Environments :: "string \<rightharpoonup> Environment"

text \<open>The element type of \<^verbatim>\<open>Environments\<close> in \<^verbatim>\<open>ConfigV1\<close>: a datacenter is a flat map.\<close>

record EnvironmentV1 =
  env1_Vars :: EnvVars
  env1_Secrets :: Secrets
  env1_Dcs :: "string \<rightharpoonup> EnvVars"

record ConfigV1 =
  Vars1 :: EnvVars
  Secrets1 :: Secrets
  Environments1 :: "string \<rightharpoonup> EnvironmentV1"

definition zeroDatacenter :: Datacenter where
  "zeroDatacenter = \<lparr>dc_Vars = Map.empty, dc_Secrets = Map.empty\<rparr>"

definition zeroEnvironment :: Environment where
  "zeroEnvironment = \<lparr>env_Vars = Map.empty, env_Secrets = Map.empty, env_Dcs = Map.empty\<rparr>"

definition zeroConfig :: Config where
  "zeroConfig = \<lparr>Vars = Map.empty, Secrets = Map.empty, Environments = Map.empty\<rparr>"

definition zeroConfigV1 :: ConfigV1 where
  "zeroConfigV1 = \<lparr>Vars1 = Map.empty, Secrets1 = Map.empty, Environments1 = Map.empty\<rparr>"

text \<open>\<^verbatim>\<open>m[k]\<close> on a Go map: the element, or the zero value \<open>z\<close> of the element type.\<close>

definition index :: "'v \<Rightarrow> ('k \<rightharpoonup> 'v) \<Rightarrow> 'k \<Rightarrow> 'v" where
  "index z m k = (case m k of None \<Rightarrow> z | Some v \<Rightarrow> v)"

text \<open>
  The value of \<^verbatim>\<open>secret.Data["value"]\<close> has the interface type. The model has the JSON
  scalars a secret store returns: null, a string (a number arrives as \<^verbatim>\<open>json.Number\<close>,
  a string type that prints as its text) and a boolean. Lists and objects are left out.
\<close>

datatype dataval = DNull | DString string | DBool bool

text \<open>
  What one call of \<^verbatim>\<open>GetVaultSecret\<close> meets: \<^verbatim>\<open>NewClient\<close> fails, \<^verbatim>\<open>Read\<close> fails,
  \<^verbatim>\<open>Read\<close> returns nil, or \<^verbatim>\<open>Read\<close> returns a secret with its \<^verbatim>\<open>Data\<close> map.
\<close>

datatype vault_reply =
  ClientError string
| ReadError string
| NoSecret
| Secret "string \<rightharpoonup> dataval"

text \<open>The six \<^verbatim>\<open>range\<close> loops of the action, in the order of the source.\<close>

datatype bucket =
  GlobalVars | GlobalSecrets | EnvironmentVars | EnvironmentSecrets
| DatacenterVars | DatacenterSecrets

datatype schema = V2 | V1

text \<open>
  Everything the action does to the outside, in the order it happens: the memory lock, a
  report on standard error, the read of the variables file, a call of \<^verbatim>\<open>yaml.Unmarshal\<close>,
  a call of \<^verbatim>\<open>GetVaultSecret\<close> and a line written to standard output (the text without its
  final newline).
\<close>

datatype event =
  Mlockall
| Stderr string
| ReadFile string
| Unmarshal schema
| Fetch string
| Stdout string

text \<open>\<^verbatim>\<open>return nil\<close> and \<^verbatim>\<open>return cli.NewExitError(message, code)\<close>.\<close>

datatype outcome = Success | ExitError string nat

fun exit_code :: "outcome \<Rightarrow> nat" where
  "exit_code Success = 0"
| "exit_code (ExitError msg code) = code"

text \<open>
  The collaborators of the program that are not its own code: the file system, the YAML
  decoder, the secret store, the order in which Go iterates over a map, and the part of
  \<^verbatim>\<open>strconv.Quote\<close> that needs the Unicode tables (\<open>quote_other\<close>, see \<open>Quote\<close>).

  \<^item> \<open>unmarshal_v2 w bytes\<close> is the value left in \<^verbatim>\<open>config\<close> by
    \<^verbatim>\<open>yaml.Unmarshal(yamlFile, &config)\<close> together with the error (\<open>None\<close> for nil);
    \<open>unmarshal_v1\<close> the same for \<^verbatim>\<open>configV1\<close>.
  \<^item> \<open>range_order w b\<close> is the order in which the \<^verbatim>\<open>range\<close> loop of bucket \<open>b\<close> visits
    the keys in this run.
  \<^item> \<open>mlock_report w\<close> is what the memory lock reports, when it is requested.
\<close>

record world =
  mlock_report :: "string option"
  abs_path :: "string \<Rightarrow> string"
  read_file :: "string \<Rightarrow> string option"
  unmarshal_v2 :: "string \<Rightarrow> Config \<times> string option"
  unmarshal_v1 :: "string \<Rightarrow> ConfigV1 \<times> string option"
  vault :: "string \<Rightarrow> vault_reply"
  range_order :: "bucket \<Rightarrow> string list"
  quote_other :: "string \<Rightarrow> string"

section \<open>Formatting\<close>

definition dquote :: char where
  "dquote = CHR 0x22"

definition backslash :: char where
  "backslash = CHR 0x5C"

definition lowerhex :: "nat \<Rightarrow> char" where
  "lowerhex n = ''0123456789abcdef'' ! n"

text \<open>
  \<^verbatim>\<open>strconv.Quote\<close> on one byte below \<^verbatim>\<open>0x7F\<close>: the quote and the backslash get a
  backslash, a printable byte is copied, a control byte is written as its escape.
\<close>

definition appendEscapedRune :: "char \<Rightarrow> string" where
  "appendEscapedRune c =
     (if c = dquote \<or> c = backslash then [backslash, c]
      else if (0x20::nat) \<le> of_char c then [c]
      else if c = CHR 0x07 then [backslash, CHR ''a'']
      else if c = CHR 0x08 then [backslash, CHR ''b'']
      else if c = CHR 0x0C then [backslash, CHR ''f'']
      else if c = CHR 0x0A then [backslash, CHR ''n'']
      else if c = CHR 0x0D then [backslash, CHR ''r'']
      else if c = CHR 0x09 then [backslash, CHR ''t'']
      else if c = CHR 0x0B then [backslash, CHR ''v'']
      else [backslash, CHR ''x'', lowerhex (of_char c div 16), lowerhex (of_char c mod 16)])"

text \<open>
  The verb \<^verbatim>\<open>%q\<close> on a string is \<^verbatim>\<open>strconv.Quote\<close>: a double quote, the string rune
  by rune, a double quote. A byte below \<^verbatim>\<open>0x7F\<close> is a rune of its own and is written by
  \<open>appendEscapedRune\<close>. A rune that starts at a byte from \<^verbatim>\<open>0x80\<close> on takes only bytes
  from \<^verbatim>\<open>0x80\<close> on, and what is written for it (the bytes, or an escape with
  \<^verbatim>\<open>\x\<close>, \<^verbatim>\<open>\u\<close> or \<^verbatim>\<open>\U\<close>) depends on the Unicode tables; the byte \<^verbatim>\<open>0x7F\<close> is
  written as \<^verbatim>\<open>\x7f\<close> or as \<^verbatim>\<open>\u007f\<close> by different versions of the library. So
  the text written for a run of bytes from \<^verbatim>\<open>0x7F\<close> on, ended by a byte below
  \<^verbatim>\<open>0x7F\<close> or by the end of the string, depends on that run only and is taken from
  \<open>quote_other\<close>.
\<close>

definition flush :: "world \<Rightarrow> string \<Rightarrow> string" where
  "flush w run = (if run = [] then [] else quote_other w run)"

text \<open>\<open>quoteFrom w run s\<close>: the rest \<open>s\<close> of the string, after the pending run \<open>run\<close>.\<close>

fun quoteFrom :: "world \<Rightarrow> string \<Rightarrow> string \<Rightarrow> string" where
  "quoteFrom w run [] = flush w run"
| "quoteFrom w run (c # cs) =
     (if (of_char c :: nat) < 0x7F
      then flush w run @ appendEscapedRune c @ quoteFrom w [] cs
      else quoteFrom w (run @ [c]) cs)"

definition Quote :: "world \<Rightarrow> string \<Rightarrow> string" where
  "Quote w s = [dquote] @ quoteFrom w [] s @ [dquote]"

text \<open>The verb \<^verbatim>\<open>%q\<close> on \<^verbatim>\<open>secret.Data["value"]\<close>; \<open>None\<close> is the absent key.\<close>

fun fmt_q :: "world \<Rightarrow> dataval option \<Rightarrow> string" where
  "fmt_q w None = ''%!q(<nil>)''"
| "fmt_q w (Some DNull) = ''%!q(<nil>)''"
| "fmt_q w (Some (DString s)) = Quote w s"
| "fmt_q w (Some (DBool b)) = ''%!q(bool='' @ (if b then ''true'' else ''false'') @ '')''"

section \<open>The program\<close>

definition EnvErrorCode :: nat where
  "EnvErrorCode = 2"

definition YamlErrorCode :: nat where
  "YamlErrorCode = 5"

definition VaultErrorCode :: nat where
  "VaultErrorCode = 6"

text \<open>\<^verbatim>\<open>GetVaultSecret\<close>: the error message, or the \<^verbatim>\<open>Data\<close> map of the secret.\<close>

definition GetVaultSecret :: "world \<Rightarrow> string \<Rightarrow> string + (string \<rightharpoonup> dataval)" where
  "GetVaultSecret w path =
     (case vault w path of
        ClientError err \<Rightarrow> Inl (''Vault - Client Error: '' @ err)
      | ReadError err \<Rightarrow> Inl (''Vault - Read Error: '' @ err)
      | NoSecret \<Rightarrow> Inl (''Vault - No secret at path: '' @ path)
      | Secret data \<Rightarrow> Inr data)"

text \<open>
  Modelled from the spec: \<^verbatim>\<open>enableMlock\<close>, which the action calls first and which is
  defined outside \<^verbatim>\<open>buildenv.go\<close>. When locking is not requested it does nothing; when it
  is, it attempts the lock and reports a failure or a missing facility, without ending the
  run. The report is taken to go to standard error.
\<close>

definition enableMlock :: "world \<Rightarrow> bool \<Rightarrow> event list" where
  "enableMlock w mlockBool =
     (if mlockBool
      then Mlockall # (case mlock_report w of None \<Rightarrow> [] | Some msg \<Rightarrow> [Stderr msg])
      else [])"

text \<open>
  \<^verbatim>\<open>for k, v := range m\<close> visits the entries of \<open>m\<close> in the order \<open>ks\<close> of this run.
\<close>

definition rangeMap :: "(string \<rightharpoonup> string) \<Rightarrow> string list \<Rightarrow> (string \<times> string) list" where
  "rangeMap m ks = List.map_filter (\<lambda>k. map_option (Pair k) (m k)) ks"

text \<open>The order is one Go can take: every key of the map, once.\<close>

definition valid_order :: "(string \<rightharpoonup> string) \<Rightarrow> string list \<Rightarrow> bool" where
  "valid_order m ks \<longleftrightarrow> distinct ks \<and> set ks = dom m"

text \<open>The loops over vars: \<^verbatim>\<open>fmt.Printf("export %s=%q\n", k, v)\<close>.\<close>

definition exportVar :: "world \<Rightarrow> string \<Rightarrow> string \<Rightarrow> string" where
  "exportVar w k v = ''export '' @ k @ ''='' @ Quote w v"

fun printVars :: "world \<Rightarrow> (string \<times> string) list \<Rightarrow> event list" where
  "printVars w [] = []"
| "printVars w ((k, v) # kvs) = Stdout (exportVar w k v) # printVars w kvs"

text \<open>\<^verbatim>\<open>fmt.Printf("export %s=%q # %s\n", k, secret.Data["value"], path)\<close>.\<close>

definition exportSecret ::
  "world \<Rightarrow> string \<Rightarrow> (string \<rightharpoonup> dataval) \<Rightarrow> string \<Rightarrow> string" where
  "exportSecret w k data path =
     ''export '' @ k @ ''='' @ fmt_q w (data ''value'') @ '' # '' @ path"

text \<open>
  The loops over secrets: the events, and the message of the error that ended the loop
  with \<^verbatim>\<open>return cli.NewExitError(err.Error(), VaultErrorCode)\<close>, if one did.
\<close>

fun printSecrets :: "world \<Rightarrow> (string \<times> string) list \<Rightarrow> event list \<times> string option" where
  "printSecrets w [] = ([], None)"
| "printSecrets w ((k, path) # kps) =
     (case GetVaultSecret w path of
        Inr data \<Rightarrow>
          (case printSecrets w kps of
             (tr, r) \<Rightarrow> (Fetch path # Stdout (exportSecret w k data path) # tr, r))
      | Inl err \<Rightarrow> ([Fetch path], Some err))"

text \<open>Statements in sequence: a secrets loop that returned ends the action.\<close>

definition after_secrets ::
  "event list \<times> string option \<Rightarrow> event list \<times> outcome \<Rightarrow> event list \<times> outcome" where
  "after_secrets a b =
     (case a of
        (tr, Some err) \<Rightarrow> (tr, ExitError err VaultErrorCode)
      | (tr, None) \<Rightarrow> (tr @ fst b, snd b))"

text \<open>
  The maps the six loops range over: \<^verbatim>\<open>config.Vars\<close>, \<^verbatim>\<open>config.Secrets\<close>,
  \<^verbatim>\<open>config.Environments[env].Vars\<close>, \<^verbatim>\<open>config.Environments[env].Secrets\<close>,
  \<^verbatim>\<open>config.Environments[env].Dcs[dc].Vars\<close> and
  \<^verbatim>\<open>config.Environments[env].Dcs[dc].Secrets\<close>.
\<close>

definition environmentOf :: "Config \<Rightarrow> string \<Rightarrow> Environment" where
  "environmentOf config env = index zeroEnvironment (Environments config) env"

definition datacenterOf :: "Config \<Rightarrow> string \<Rightarrow> string \<Rightarrow> Datacenter" where
  "datacenterOf config env dc = index zeroDatacenter (env_Dcs (environmentOf config env)) dc"

fun bucket_map :: "Config \<Rightarrow> string \<Rightarrow> string \<Rightarrow> bucket \<Rightarrow> (string \<rightharpoonup> string)" where
  "bucket_map config env dc GlobalVars = Vars config"
| "bucket_map config env dc GlobalSecrets = Secrets config"
| "bucket_map config env dc EnvironmentVars = env_Vars (environmentOf config env)"
| "bucket_map config env dc EnvironmentSecrets = env_Secrets (environmentOf config env)"
| "bucket_map config env dc DatacenterVars = dc_Vars (datacenterOf config env dc)"
| "bucket_map config env dc DatacenterSecrets = dc_Secrets (datacenterOf config env dc)"

text \<open>The entries the loop of bucket \<open>b\<close> visits in this run, in order.\<close>

definition entries ::
  "world \<Rightarrow> Config \<Rightarrow> string \<Rightarrow> string \<Rightarrow> bucket \<Rightarrow> (string \<times> string) list" where
  "entries w config env dc b = rangeMap (bucket_map config env dc b) (range_order w b)"

text \<open>Lines 165 to 177 and 187 to 193: the header and the sections of vars.\<close>

definition printGlobalVars :: "world \<Rightarrow> Config \<Rightarrow> string \<Rightarrow> string \<Rightarrow> event list" where
  "printGlobalVars w config env dc =
     [Stdout ''# Setting Variables for:'', Stdout (''# Environment: '' @ env)]
     @ (if dc \<noteq> '''' then [Stdout (''# Datacenter: '' @ dc)] else [])
     @ [Stdout ''# Global Vars:'']
     @ printVars w (entries w config env dc GlobalVars)
     @ [Stdout ''# Global Secrets:'']"

definition printEnvironmentVars :: "world \<Rightarrow> Config \<Rightarrow> string \<Rightarrow> string \<Rightarrow> event list" where
  "printEnvironmentVars w config env dc =
     [Stdout (''# Environment ('' @ env @ '') Vars:'')]
     @ printVars w (entries w config env dc EnvironmentVars)
     @ [Stdout (''# Environment ('' @ env @ '') Secrets:'')]"

text \<open>Lines 204 to 226: the datacenter sections, by the flag \<^verbatim>\<open>legacy\<close>.\<close>

definition printDatacenter ::
  "world \<Rightarrow> bool \<Rightarrow> Config \<Rightarrow> string \<Rightarrow> string \<Rightarrow> event list \<times> outcome" where
  "printDatacenter w legacy config env dc =
     (if legacy then
        (if dc \<noteq> '''' then
           (Stdout (''# Datacenter ('' @ dc @ '') Specific Vars:'')
              # printVars w (entries w config env dc DatacenterVars),
            Success)
         else ([], Success))
      else
        after_secrets
          (case printSecrets w (entries w config env dc DatacenterSecrets) of
             (tr, r) \<Rightarrow>
               (Stdout (''# Datacenter ('' @ env @ '') Specific Vars:'')
                  # printVars w (entries w config env dc DatacenterVars)
                  @ Stdout (''# Datacenter ('' @ env @ '') Specific Secrets:'') # tr, r))
          ([], Success))"

text \<open>Lines 165 to 228: everything the action prints once the document is decoded.\<close>

definition emit ::
  "world \<Rightarrow> bool \<Rightarrow> Config \<Rightarrow> string \<Rightarrow> string \<Rightarrow> event list \<times> outcome" where
  "emit w legacy config env dc =
     after_secrets
       (case printSecrets w (entries w config env dc GlobalSecrets) of
          (tr, r) \<Rightarrow> (printGlobalVars w config env dc @ tr, r))
       (after_secrets
          (case printSecrets w (entries w config env dc EnvironmentSecrets) of
             (tr, r) \<Rightarrow> (printEnvironmentVars w config env dc @ tr, r))
          (printDatacenter w legacy config env dc))"

text \<open>
  Lines 149 to 163: the three variables the decoding leaves behind, or the exit with the
  YAML error after the decoder's message is printed.
\<close>

record loaded =
  config :: Config
  configV1 :: ConfigV1
  legacy :: bool

definition loadConfig :: "world \<Rightarrow> string \<Rightarrow> event list \<times> (outcome + loaded)" where
  "loadConfig w yamlFile =
     (case unmarshal_v2 w yamlFile of
        (c, None) \<Rightarrow>
          ([Unmarshal V2], Inr \<lparr>config = c, configV1 = zeroConfigV1, legacy = False\<rparr>)
      | (c, Some e2) \<Rightarrow>
          (case unmarshal_v1 w yamlFile of
             (c1, None) \<Rightarrow>
               ([Unmarshal V2, Unmarshal V1], Inr \<lparr>config = c, configV1 = c1, legacy = True\<rparr>)
           | (c1, Some err) \<Rightarrow>
               ([Unmarshal V2, Unmarshal V1, Stdout err],
                Inl (ExitError ''unable to unmarshal yaml'' YamlErrorCode))))"

text \<open>
  The action, on the values the flags were parsed to. Every section reads \<^verbatim>\<open>config\<close>;
  \<^verbatim>\<open>configV1\<close> is decoded into and not read again.
\<close>

definition Action ::
  "world \<Rightarrow> string \<Rightarrow> string \<Rightarrow> string \<Rightarrow> bool \<Rightarrow> event list \<times> outcome" where
  "Action w env dc varsFile mlockBool =
     (if env = '''' then
        (enableMlock w mlockBool, ExitError ''environment is required'' EnvErrorCode)
      else
        (case read_file w (abs_path w varsFile) of
           None \<Rightarrow>
             (enableMlock w mlockBool @ [ReadFile (abs_path w varsFile)],
              ExitError (''unable to read variable file '' @ varsFile) 4)
         | Some yamlFile \<Rightarrow>
             (case loadConfig w yamlFile of
                (tr, Inl failed) \<Rightarrow>
                  (enableMlock w mlockBool @ [ReadFile (abs_path w varsFile)] @ tr, failed)
              | (tr, Inr l) \<Rightarrow>
                  (case emit w (legacy l) (config l) env dc of
                     (tr', r) \<Rightarrow>
                       (enableMlock w mlockBool @ [ReadFile (abs_path w varsFile)] @ tr @ tr',
                        r)))))"

text \<open>What a run wrote to standard output, line by line.\<close>

fun stdout_of :: "event list \<Rightarrow> string list" where
  "stdout_of [] = []"
| "stdout_of (Stdout l # tr) = l # stdout_of tr"
| "stdout_of (e # tr) = stdout_of tr"

section \<open>Sample documents and runs\<close>

text \<open>
  The spec's translation of a document of the current shape to the legacy shape, in the
  spec's words: the same document with each datacenter flattened to its vars.
\<close>

definition zeroEnvironmentV1 :: EnvironmentV1 where
  "zeroEnvironmentV1 =
     \<lparr>env1_Vars = Map.empty, env1_Secrets = Map.empty, env1_Dcs = Map.empty\<rparr>"

definition translateV1 :: "Config \<Rightarrow> ConfigV1" where
  "translateV1 c =
     \<lparr>Vars1 = Vars c, Secrets1 = Secrets c,
      Environments1 =
        (\<lambda>name. map_option
           (\<lambda>e. \<lparr>env1_Vars = env_Vars e, env1_Secrets = env_Secrets e,
                 env1_Dcs = (\<lambda>d. map_option dc_Vars (env_Dcs e d))\<rparr>)
           (Environments c name))\<rparr>"

definition doc_v2 :: string where
  "doc_v2 = ''environments: {dev: {dcs: {us_east: {vars: {vars: us-east-1}}}}}''"

definition doc_v1 :: string where
  "doc_v1 = ''environments: {dev: {dcs: {us_east: {vars: us-east-1}}}}''"

definition doc_secrets :: string where
  "doc_secrets = ''secrets: {A: /kv/a, B: /kv/b}''"

definition doc_novalue :: string where
  "doc_novalue = ''secrets: {TOK: /kv/n}''"

definition doc_bad :: string where
  "doc_bad = ''vars: [''"

definition v2_config :: Config where
  "v2_config =
     \<lparr>Vars = Map.empty, Secrets = Map.empty,
      Environments =
        [''dev'' \<mapsto>
           \<lparr>env_Vars = Map.empty, env_Secrets = Map.empty,
            env_Dcs =
              [''us_east'' \<mapsto>
                 \<lparr>dc_Vars = [''vars'' \<mapsto> ''us-east-1''], dc_Secrets = Map.empty\<rparr>]\<rparr>]\<rparr>"

text \<open>
  What decoding \<open>doc_v1\<close> into the current shape leaves in \<^verbatim>\<open>config\<close>: the key
  \<^verbatim>\<open>vars\<close> of the datacenter holds a scalar where a map is expected, so the decoder
  reports a type error and the datacenter keeps no vars.
\<close>

definition v1_partial :: Config where
  "v1_partial =
     \<lparr>Vars = Map.empty, Secrets = Map.empty,
      Environments =
        [''dev'' \<mapsto>
           \<lparr>env_Vars = Map.empty, env_Secrets = Map.empty,
            env_Dcs = [''us_east'' \<mapsto> zeroDatacenter]\<rparr>]\<rparr>"

definition secrets_config :: Config where
  "secrets_config =
     \<lparr>Vars = Map.empty, Secrets = [''A'' \<mapsto> ''/kv/a'', ''B'' \<mapsto> ''/kv/b''],
      Environments = Map.empty\<rparr>"

definition novalue_config :: Config where
  "novalue_config =
     \<lparr>Vars = Map.empty, Secrets = [''TOK'' \<mapsto> ''/kv/n''], Environments = Map.empty\<rparr>"

text \<open>
  A run in a directory \<^verbatim>\<open>/work\<close> that holds these documents, with a secret store that
  has a secret at \<^verbatim>\<open>/kv/a\<close>, a secret without the entry \<^verbatim>\<open>value\<close> at \<^verbatim>\<open>/kv/n\<close>
  and nothing else. The run visits the global secrets in the order \<open>gs\<close> and the
  datacenter vars in the order \<open>dv\<close>.
\<close>

definition sample_world :: "string list \<Rightarrow> string list \<Rightarrow> world" where
  "sample_world gs dv =
     \<lparr>mlock_report = None,
      abs_path = (\<lambda>f. ''/work/'' @ f),
      read_file = (\<lambda>f.
        if f = ''/work/variables.yml'' then Some doc_v1
        else if f = ''/work/v2.yml'' then Some doc_v2
        else if f = ''/work/secrets.yml'' then Some doc_secrets
        else if f = ''/work/novalue.yml'' then Some doc_novalue
        else if f = ''/work/bad.yml'' then Some doc_bad
        else if f = ''/work/empty.yml'' then Some []
        else None),
      unmarshal_v2 = (\<lambda>b.
        if b = doc_v1 then (v1_partial, Some ''yaml: unmarshal errors'')
        else if b = doc_v2 then (v2_config, None)
        else if b = doc_secrets then (secrets_config, None)
        else if b = doc_novalue then (novalue_config, None)
        else if b = doc_bad
          then (zeroConfig, Some ''yaml: line 1: did not find expected node content'')
        else (zeroConfig, None)),
      unmarshal_v1 = (\<lambda>b.
        if b = doc_v1 then (translateV1 v2_config, None)
        else if b = doc_bad
          then (zeroConfigV1, Some ''yaml: line 1: did not find expected node content'')
        else (zeroConfigV1, None)),
      vault = (\<lambda>p.
        if p = ''/kv/a'' then Secret [''value'' \<mapsto> DString ''s3cr3t'']
        else if p = ''/kv/n'' then Secret Map.empty
        else NoSecret),
      range_order = (\<lambda>b. case b of
          GlobalSecrets \<Rightarrow> gs
        | DatacenterVars \<Rightarrow> dv
        | _ \<Rightarrow> []),
      quote_other = (\<lambda>s. s)\<rparr>"

text \<open>The same secret store once a record, without the entry \<^verbatim>\<open>value\<close>, is put at \<^verbatim>\<open>/kv/b\<close>.\<close>

definition vault_with_b :: "string \<Rightarrow> vault_reply" where
  "vault_with_b p = (if p = ''/kv/b'' then Secret Map.empty else vault (sample_world [] []) p)"

section \<open>Notions used in the properties\<close>

text \<open>Every fetch in the trace met a secret.\<close>

definition no_failed_fetch :: "world \<Rightarrow> event list \<Rightarrow> bool" where
  "no_failed_fetch w tr \<longleftrightarrow> (\<forall>p. Fetch p \<in> set tr \<longrightarrow> (\<exists>d. vault w p = Secret d))"

text \<open>
  A fetch that met no secret is the last event of the run, and the run ended with its
  error and the exit code for the secret store.
\<close>

definition fail_fast :: "world \<Rightarrow> event list \<times> outcome \<Rightarrow> bool" where
  "fail_fast w run \<longleftrightarrow>
     (\<forall>pre p post. fst run = pre @ Fetch p # post \<longrightarrow> (\<forall>d. vault w p \<noteq> Secret d) \<longrightarrow>
        post = [] \<and>
        (\<exists>msg. GetVaultSecret w p = Inl msg \<and> snd run = ExitError msg VaultErrorCode))"

text \<open>The line a secrets loop prints for one entry whose fetch succeeds.\<close>

definition secretLine :: "world \<Rightarrow> string \<times> string \<Rightarrow> string" where
  "secretLine w kp =
     (case GetVaultSecret w (snd kp) of
        Inr data \<Rightarrow> exportSecret w (fst kp) data (snd kp)
      | Inl err \<Rightarrow> [])"

text \<open>
  A banner is a line that starts with \<^verbatim>\<open>#\<close>; an export line starts with
  \<^verbatim>\<open>export\<close> and is none.
\<close>

definition is_banner :: "string \<Rightarrow> bool" where
  "is_banner l \<longleftrightarrow> (case l of [] \<Rightarrow> False | c # cs \<Rightarrow> c = CHR ''#'')"

text \<open>
  The sections of an output: every banner with the lines that follow it, up to the next
  banner.
\<close>

fun sections :: "string list \<Rightarrow> (string \<times> string list) list" where
  "sections [] = []"
| "sections (l # ls) =
     (if is_banner l then (l, takeWhile (\<lambda>x. \<not> is_banner x) ls) # sections ls
      else sections ls)"

text \<open>Two sections with the same banner and the same lines, up to the order of the lines.\<close>

definition same_section :: "string \<times> string list \<Rightarrow> string \<times> string list \<Rightarrow> bool" where
  "same_section s t \<longleftrightarrow> fst s = fst t \<and> mset (snd s) = mset (snd t)"

text \<open>
  The value of \<^verbatim>\<open>config\<close> that the sections are printed from, when the file is read
  and decoded.
\<close>

definition run_config :: "world \<Rightarrow> string \<Rightarrow> Config option" where
  "run_config w varsFile =
     (case read_file w (abs_path w varsFile) of
        None \<Rightarrow> None
      | Some yamlFile \<Rightarrow>
          (case snd (loadConfig w yamlFile) of
             Inl failed \<Rightarrow> None
           | Inr l \<Rightarrow> Some (config l)))"

text \<open>
  The sections a run prints once the document is decoded: the header lines, the global
  sections, and the sections that follow as long as no secrets loop has returned.
\<close>

definition run_sections ::
  "world \<Rightarrow> bool \<Rightarrow> Config \<Rightarrow> string \<Rightarrow> string \<Rightarrow> (string \<times> string list) list" where
  "run_sections w l c env dc =
     [(''# Setting Variables for:'', []), (''# Environment: '' @ env, [])]
     @ (if dc \<noteq> '''' then [(''# Datacenter: '' @ dc, [])] else [])
     @ [(''# Global Vars:'', map (\<lambda>(k, v). exportVar w k v) (entries w c env dc GlobalVars)),
        (''# Global Secrets:'',
         stdout_of (fst (printSecrets w (entries w c env dc GlobalSecrets))))]
     @ (if snd (printSecrets w (entries w c env dc GlobalSecrets)) \<noteq> None then []
        else
          [(''# Environment ('' @ env @ '') Vars:'',
            map (\<lambda>(k, v). exportVar w k v) (entries w c env dc EnvironmentVars)),
           (''# Environment ('' @ env @ '') Secrets:'',
            stdout_of (fst (printSecrets w (entries w c env dc EnvironmentSecrets))))]
          @ (if snd (printSecrets w (entries w c env dc EnvironmentSecrets)) \<noteq> None then []
             else if l then
               (if dc \<noteq> ''''
                then [(''# Datacenter ('' @ dc @ '') Specific Vars:'',
                       map (\<lambda>(k, v). exportVar w k v) (entries w c env dc DatacenterVars))]
                else [])
             else
               [(''# Datacenter ('' @ env @ '') Specific Vars:'',
                 map (\<lambda>(k, v). exportVar w k v) (entries w c env dc DatacenterVars)),
                (''# Datacenter ('' @ env @ '') Specific Secrets:'',
                 stdout_of (fst (printSecrets w (entries w c env dc DatacenterSecrets))))]))"

text \<open>The lines of a list of sections, and the lists in which the banners head the sections.\<close>

definition flat :: "(string \<times> string list) list \<Rightarrow> string list" where
  "flat S = concat (map (\<lambda>s. fst s # snd s) S)"

definition wf_sections :: "(string \<times> string list) list \<Rightarrow> bool" where
  "wf_sections S \<longleftrightarrow> (\<forall>s \<in> set S. is_banner (fst s) \<and> (\<forall>x \<in> set (snd s). \<not> is_banner x))"

section \<open>Evaluation\<close>

lemmas model_defs =
  Action_def loadConfig_def emit_def printGlobalVars_def printEnvironmentVars_def
  printDatacenter_def after_secrets_def entries_def environmentOf_def datacenterOf_def
  rangeMap_def List.map_filter_def index_def
  GetVaultSecret_def enableMlock_def exportVar_def exportSecret_def Quote_def flush_def
  appendEscapedRune_def dquote_def backslash_def lowerhex_def zeroDatacenter_def
  zeroEnvironment_def zeroConfig_def zeroConfigV1_def zeroEnvironmentV1_def
  EnvErrorCode_def YamlErrorCode_def VaultErrorCode_def

lemmas sample_defs =
  sample_world_def doc_v1_def doc_v2_def doc_secrets_def doc_novalue_def doc_bad_def
  v2_config_def v1_partial_def secrets_config_def novalue_config_def translateV1_def

section \<open>The shape of a run\<close>

lemma stdout_of_append: "stdout_of (a @ b) = stdout_of a @ stdout_of b"
  by (induction a rule: stdout_of.induct) simp_all

lemma stdout_of_printVars:
  "stdout_of (printVars w kvs) = map (\<lambda>(k, v). exportVar w k v) kvs"
  by (induction w kvs rule: printVars.induct) simp_all

lemma enableMlock_silent:
  "stdout_of (enableMlock w m) = []"
  "ReadFile name \<notin> set (enableMlock w m)"
  "Fetch p \<notin> set (enableMlock w m)"
  "Unmarshal s \<notin> set (enableMlock w m)"
  by (auto simp: enableMlock_def split: option.splits)

lemma quoteFrom_same:
  "quote_other w' = quote_other w \<Longrightarrow> quoteFrom w' run s = quoteFrom w run s"
  by (induction s arbitrary: run) (simp_all add: flush_def)

lemma Quote_update:
  "Quote (w\<lparr>vault := v\<rparr>) s = Quote w s"
  "Quote (w\<lparr>range_order := ord\<rparr>) s = Quote w s"
  "Quote (w\<lparr>unmarshal_v1 := u\<rparr>) s = Quote w s"
  by (simp_all add: Quote_def quoteFrom_same [of "w\<lparr>vault := v\<rparr>" w]
        quoteFrom_same [of "w\<lparr>range_order := ord\<rparr>" w]
        quoteFrom_same [of "w\<lparr>unmarshal_v1 := u\<rparr>" w])

lemma quoteFrom_ascii:
  "list_all (\<lambda>c. (of_char c :: nat) < 0x7F) v \<Longrightarrow>
   quoteFrom w [] v = concat (map appendEscapedRune v)"
  by (induction v) (simp_all add: flush_def)

lemma quoteFrom_split:
  "(of_char c :: nat) < 0x7F \<Longrightarrow>
   quoteFrom w run (a @ c # b) = quoteFrom w run a @ appendEscapedRune c @ quoteFrom w [] b"
  by (induction a arbitrary: run) simp_all

lemma quoteFrom_other:
  "list_all (\<lambda>c. \<not> (of_char c :: nat) < 0x7F) r \<Longrightarrow> quoteFrom w run r = flush w (run @ r)"
  by (induction r arbitrary: run) simp_all

lemma Quote_ascii:
  "list_all (\<lambda>c. (of_char c :: nat) < 0x7F) v \<Longrightarrow>
   Quote w v = [dquote] @ concat (map appendEscapedRune v) @ [dquote]"
  by (simp add: Quote_def quoteFrom_ascii)

lemma Quote_plain:
  assumes "list_all (\<lambda>c. (0x20::nat) \<le> of_char c \<and> (of_char c :: nat) < 0x7F
             \<and> c \<noteq> dquote \<and> c \<noteq> backslash) v"
  shows "Quote w v = [dquote] @ v @ [dquote]"
proof -
  have a: "list_all (\<lambda>c. (of_char c :: nat) < 0x7F) v"
    using assms by (induction v) auto
  have b: "concat (map appendEscapedRune v) = v"
    using assms by (induction v) (auto simp: appendEscapedRune_def)
  show ?thesis by (simp add: Quote_ascii a b)
qed

lemma GetVaultSecret_Secret: "vault w path = Secret data \<Longrightarrow> GetVaultSecret w path = Inr data"
  by (simp add: GetVaultSecret_def)

lemma after_secrets_None: "snd a = None \<Longrightarrow> after_secrets a b = (fst a @ fst b, snd b)"
  by (cases a) (simp add: after_secrets_def)

lemma after_secrets_Some:
  "snd a = Some e \<Longrightarrow> after_secrets a b = (fst a, ExitError e VaultErrorCode)"
  by (cases a) (simp add: after_secrets_def)

lemma emit_global_fails:
  assumes "snd (printSecrets w (entries w c env dc GlobalSecrets)) = Some e"
  shows "emit w l c env dc =
    (printGlobalVars w c env dc @ fst (printSecrets w (entries w c env dc GlobalSecrets)),
     ExitError e VaultErrorCode)"
  using assms by (simp add: emit_def case_prod_beta after_secrets_Some)

lemma emit_environment_fails:
  assumes "snd (printSecrets w (entries w c env dc GlobalSecrets)) = None"
    and "snd (printSecrets w (entries w c env dc EnvironmentSecrets)) = Some e"
  shows "emit w l c env dc =
    (printGlobalVars w c env dc @ fst (printSecrets w (entries w c env dc GlobalSecrets))
       @ printEnvironmentVars w c env dc
       @ fst (printSecrets w (entries w c env dc EnvironmentSecrets)),
     ExitError e VaultErrorCode)"
  using assms by (simp add: emit_def case_prod_beta after_secrets_Some after_secrets_None)

lemma emit_reaches_datacenter:
  assumes "snd (printSecrets w (entries w c env dc GlobalSecrets)) = None"
    and "snd (printSecrets w (entries w c env dc EnvironmentSecrets)) = None"
  shows "emit w l c env dc =
    (printGlobalVars w c env dc @ fst (printSecrets w (entries w c env dc GlobalSecrets))
       @ printEnvironmentVars w c env dc
       @ fst (printSecrets w (entries w c env dc EnvironmentSecrets))
       @ fst (printDatacenter w l c env dc),
     snd (printDatacenter w l c env dc))"
  using assms by (simp add: emit_def case_prod_beta after_secrets_None)

lemma printDatacenter_v2:
  "printDatacenter w False c env dc =
     (Stdout (''# Datacenter ('' @ env @ '') Specific Vars:'')
        # printVars w (entries w c env dc DatacenterVars)
        @ Stdout (''# Datacenter ('' @ env @ '') Specific Secrets:'')
        # fst (printSecrets w (entries w c env dc DatacenterSecrets)),
      case snd (printSecrets w (entries w c env dc DatacenterSecrets)) of
        None \<Rightarrow> Success | Some e \<Rightarrow> ExitError e VaultErrorCode)"
  by (simp add: printDatacenter_def case_prod_beta after_secrets_def split: option.splits)

lemma Action_v2:
  assumes "env \<noteq> ''''" and "read_file w (abs_path w f) = Some bytes"
    and "unmarshal_v2 w bytes = (c, None)"
  shows "Action w env dc f m =
    (enableMlock w m @ [ReadFile (abs_path w f), Unmarshal V2] @ fst (emit w False c env dc),
     snd (emit w False c env dc))"
  using assms by (simp add: Action_def loadConfig_def case_prod_beta)

lemma Action_legacy:
  assumes "env \<noteq> ''''" and "read_file w (abs_path w f) = Some bytes"
    and "unmarshal_v2 w bytes = (c, Some ea)" and "unmarshal_v1 w bytes = (cl, None)"
  shows "Action w env dc f m =
    (enableMlock w m @ [ReadFile (abs_path w f), Unmarshal V2, Unmarshal V1]
       @ fst (emit w True c env dc),
     snd (emit w True c env dc))"
  using assms by (simp add: Action_def loadConfig_def case_prod_beta)

lemma rangeMap_empty: "rangeMap Map.empty ks = []"
  by (induction ks) (simp_all add: rangeMap_def List.map_filter_def)

lemma GetVaultSecret_Inr_iff: "GetVaultSecret w p = Inr d \<longleftrightarrow> vault w p = Secret d"
  by (cases "vault w p") (simp_all add: GetVaultSecret_def)

lemma printSecrets_None_iff:
  "snd (printSecrets w kps) = None \<longleftrightarrow> (\<forall>(k, p) \<in> set kps. \<exists>d. vault w p = Secret d)"
proof (induction kps)
  case Nil
  then show ?case by simp
next
  case (Cons kp kps)
  obtain k path where kp: "kp = (k, path)" by (cases kp)
  show ?case
  proof (cases "GetVaultSecret w path")
    case (Inl err)
    then have "\<not> (\<exists>d. vault w path = Secret d)"
      by (auto simp: GetVaultSecret_Inr_iff [symmetric])
    with Inl kp show ?thesis by simp
  next
    case (Inr d)
    then have "vault w path = Secret d" by (simp add: GetVaultSecret_Inr_iff)
    with Inr kp Cons.IH show ?thesis by (simp add: case_prod_beta)
  qed
qed

lemma printDatacenter_legacy:
  "printDatacenter w True c env dc =
     (if dc \<noteq> [] then Stdout (''# Datacenter ('' @ dc @ '') Specific Vars:'')
                          # printVars w (entries w c env dc DatacenterVars)
      else [], Success)"
  by (simp add: printDatacenter_def)

lemma Action_emit:
  assumes "env \<noteq> ''''" and "read_file w (abs_path w f) = Some bytes"
    and "loadConfig w bytes = (tr, Inr l)"
  shows "Action w env dc f m =
    (enableMlock w m @ [ReadFile (abs_path w f)] @ tr
       @ fst (emit w (legacy l) (config l) env dc),
     snd (emit w (legacy l) (config l) env dc))"
  using assms by (simp add: Action_def case_prod_beta)

lemma stdout_of_decoded:
  assumes "env \<noteq> ''''" and "read_file w (abs_path w f) = Some bytes"
    and "loadConfig w bytes = (tr, Inr l)"
  shows "stdout_of (fst (Action w env dc f m))
           = stdout_of (fst (emit w (legacy l) (config l) env dc))"
proof -
  have "stdout_of tr = []"
    using assms(3)
    by (auto simp: loadConfig_def split: prod.splits option.splits)
  then show ?thesis
    by (simp add: Action_emit [OF assms] stdout_of_append enableMlock_silent)
qed

lemma absent_datacenter_entries:
  assumes "env_Dcs (environmentOf c env) dc = None"
  shows "entries w c env dc DatacenterVars = []" and "entries w c env dc DatacenterSecrets = []"
  using assms
  by (simp_all add: entries_def datacenterOf_def index_def zeroDatacenter_def rangeMap_empty)

lemma absent_environment_entries:
  assumes "Environments c env = None"
  shows "entries w c env dc EnvironmentVars = []"
    and "entries w c env dc EnvironmentSecrets = []"
    and "entries w c env dc DatacenterVars = []"
    and "entries w c env dc DatacenterSecrets = []"
  using assms
  by (simp_all add: entries_def environmentOf_def datacenterOf_def index_def
        zeroEnvironment_def zeroDatacenter_def rangeMap_empty)

lemma loadConfig_cases:
  "(unmarshal_v2 w bytes = (c, None) \<longrightarrow>
      loadConfig w bytes =
        ([Unmarshal V2], Inr \<lparr>config = c, configV1 = zeroConfigV1, legacy = False\<rparr>))
   \<and> (unmarshal_v2 w bytes = (c, Some ea) \<and> unmarshal_v1 w bytes = (cl, None) \<longrightarrow>
        loadConfig w bytes =
          ([Unmarshal V2, Unmarshal V1], Inr \<lparr>config = c, configV1 = cl, legacy = True\<rparr>))
   \<and> (unmarshal_v2 w bytes = (c, Some ea) \<and> unmarshal_v1 w bytes = (cl, Some eb) \<longrightarrow>
        loadConfig w bytes =
          ([Unmarshal V2, Unmarshal V1, Stdout eb],
           Inl (ExitError ''unable to unmarshal yaml'' 5)))"
  by (auto simp: loadConfig_def YamlErrorCode_def)

lemma rangeMap_keys:
  "(\<forall>k \<in> set ks. m k \<noteq> None) \<Longrightarrow> map fst (rangeMap m ks) = ks"
  by (induction ks) (auto simp: rangeMap_def List.map_filter_def)

lemma set_rangeMap:
  "(k, v) \<in> set (rangeMap m ks) \<longleftrightarrow> k \<in> set ks \<and> m k = Some v"
  by (induction ks) (auto simp: rangeMap_def List.map_filter_def)

lemma rangeMap_valid_order:
  assumes "valid_order m ks"
  shows "map fst (rangeMap m ks) = ks" and "(k, v) \<in> set (rangeMap m ks) \<longleftrightarrow> m k = Some v"
proof -
  from assms have "\<forall>k \<in> set ks. m k \<noteq> None"
    by (auto simp: valid_order_def)
  then show "map fst (rangeMap m ks) = ks" by (rule rangeMap_keys)
  from assms show "(k, v) \<in> set (rangeMap m ks) \<longleftrightarrow> m k = Some v"
    by (auto simp: set_rangeMap valid_order_def)
qed

lemma valid_order_key: "valid_order m ks \<Longrightarrow> m k = Some v \<Longrightarrow> k \<in> set ks"
  by (auto simp: valid_order_def)

lemma present_datacenter_entries:
  assumes "Environments c env = Some e" and "env_Dcs e dc = Some d"
  shows "entries w c env dc DatacenterVars = rangeMap (dc_Vars d) (range_order w DatacenterVars)"
    and "entries w c env dc DatacenterSecrets
           = rangeMap (dc_Secrets d) (range_order w DatacenterSecrets)"
  using assms by (simp_all add: entries_def datacenterOf_def environmentOf_def index_def)

section \<open>A failing fetch is the last event\<close>

lemma no_failed_fetch_append:
  "no_failed_fetch w (a @ b) \<longleftrightarrow> no_failed_fetch w a \<and> no_failed_fetch w b"
  by (auto simp: no_failed_fetch_def)

lemma printVars_no_Fetch: "Fetch p \<notin> set (printVars w kvs)"
  by (induction w kvs rule: printVars.induct) simp_all

lemma no_failed_fetch_printVars: "no_failed_fetch w (printVars w kvs)"
  by (simp add: no_failed_fetch_def printVars_no_Fetch)

lemma no_failed_fetch_printGlobalVars: "no_failed_fetch w (printGlobalVars w c env dc)"
  by (simp add: no_failed_fetch_def printGlobalVars_def printVars_no_Fetch)

lemma no_failed_fetch_printEnvironmentVars:
  "no_failed_fetch w (printEnvironmentVars w c env dc)"
  by (simp add: no_failed_fetch_def printEnvironmentVars_def printVars_no_Fetch)

lemma Fetch_in_printSecrets:
  "Fetch p \<in> set (fst (printSecrets w kps)) \<Longrightarrow> p \<in> snd ` set kps"
proof (induction kps)
  case Nil
  then show ?case by simp
next
  case (Cons kp kps)
  obtain k path where kp: "kp = (k, path)" by (cases kp)
  from Cons kp show ?case
    by (cases "GetVaultSecret w path") (auto simp: case_prod_beta)
qed

lemma no_failed_fetch_printSecrets:
  assumes "snd (printSecrets w kps) = None"
  shows "no_failed_fetch w (fst (printSecrets w kps))"
  unfolding no_failed_fetch_def
proof (intro allI impI)
  fix p
  assume "Fetch p \<in> set (fst (printSecrets w kps))"
  then obtain k where "(k, p) \<in> set kps"
    using Fetch_in_printSecrets by fastforce
  with assms show "\<exists>d. vault w p = Secret d"
    by (auto simp: printSecrets_None_iff)
qed

lemma failed_fetch_is_later:
  assumes "no_failed_fetch w a" and "a @ b = pre @ Fetch p # post"
    and "\<forall>d. vault w p \<noteq> Secret d"
  shows "\<exists>pre'. pre = a @ pre' \<and> b = pre' @ Fetch p # post"
proof -
  from assms(2) obtain us where
    us: "a = pre @ us \<and> us @ b = Fetch p # post \<or> a @ us = pre \<and> b = us @ Fetch p # post"
    by (auto simp: append_eq_append_conv2)
  show ?thesis
  proof (cases "a = pre @ us \<and> us @ b = Fetch p # post")
    case True
    show ?thesis
    proof (cases us)
      case Nil
      with True show ?thesis by simp
    next
      case (Cons u us')
      with True have "Fetch p \<in> set a" by simp
      with assms(1,3) show ?thesis by (auto simp: no_failed_fetch_def)
    qed
  next
    case False
    with us show ?thesis by auto
  qed
qed

lemma fail_fast_clean: "no_failed_fetch w tr \<Longrightarrow> fail_fast w (tr, r)"
  by (auto simp: fail_fast_def no_failed_fetch_def)

lemma fail_fast_prepend:
  assumes "no_failed_fetch w a" and "fail_fast w (b, r)"
  shows "fail_fast w (a @ b, r)"
  unfolding fail_fast_def
proof (intro allI impI)
  fix pre p post
  assume eq: "fst (a @ b, r) = pre @ Fetch p # post" and bad: "\<forall>d. vault w p \<noteq> Secret d"
  from failed_fetch_is_later [OF assms(1) _ bad, of b pre post] eq
  obtain pre' where "b = pre' @ Fetch p # post" by auto
  with assms(2) bad
  show "post = [] \<and>
        (\<exists>msg. GetVaultSecret w p = Inl msg \<and> snd (a @ b, r) = ExitError msg VaultErrorCode)"
    by (simp add: fail_fast_def)
qed

lemma printSecrets_fail_fast:
  assumes "fst (printSecrets w kps) = pre @ Fetch p # post" and "\<forall>d. vault w p \<noteq> Secret d"
  shows "post = [] \<and> (\<exists>msg. GetVaultSecret w p = Inl msg \<and> snd (printSecrets w kps) = Some msg)"
  using assms(1)
proof (induction kps arbitrary: pre)
  case Nil
  then show ?case by simp
next
  case (Cons kp kps)
  obtain k path where kp: "kp = (k, path)" by (cases kp)
  show ?case
  proof (cases "GetVaultSecret w path")
    case (Inl err)
    with Cons.prems kp have "[Fetch path] = pre @ Fetch p # post" by simp
    then have "pre = []" "p = path" "post = []"
      by (auto simp: Cons_eq_append_conv)
    with Inl kp show ?thesis by simp
  next
    case (Inr d)
    then have ok: "vault w path = Secret d" by (simp add: GetVaultSecret_Inr_iff)
    from Cons.prems kp Inr
    have eq: "Fetch path # Stdout (exportSecret w k d path) # fst (printSecrets w kps)
                = pre @ Fetch p # post"
      by (simp add: case_prod_beta)
    from ok assms(2) have "p \<noteq> path" by auto
    with eq obtain pre' where "pre = Fetch path # pre'"
      by (cases pre) auto
    with eq obtain pre'' where "pre' = Stdout (exportSecret w k d path) # pre''"
      by (cases pre') auto
    with eq \<open>pre = Fetch path # pre'\<close>
    have "fst (printSecrets w kps) = pre'' @ Fetch p # post" by simp
    from Cons.IH [OF this] Inr kp show ?thesis by (simp add: case_prod_beta)
  qed
qed

lemma fail_fast_secrets_exit:
  assumes "snd (printSecrets w kps) = Some e"
  shows "fail_fast w (fst (printSecrets w kps), ExitError e VaultErrorCode)"
  using assms printSecrets_fail_fast [of w kps] by (fastforce simp: fail_fast_def)

lemma fail_fast_printDatacenter: "fail_fast w (printDatacenter w l c env dc)"
proof (cases l)
  case True
  then show ?thesis
    by (auto simp: printDatacenter_legacy intro!: fail_fast_clean
          simp: no_failed_fetch_def printVars_no_Fetch)
next
  case False
  have banner: "no_failed_fetch w
     (Stdout (''# Datacenter ('' @ env @ '') Specific Vars:'')
        # printVars w (entries w c env dc DatacenterVars)
        @ [Stdout (''# Datacenter ('' @ env @ '') Specific Secrets:'')])"
    by (simp add: no_failed_fetch_def printVars_no_Fetch)
  show ?thesis
  proof (cases "snd (printSecrets w (entries w c env dc DatacenterSecrets))")
    case None
    with False banner show ?thesis
      using fail_fast_clean [of w
              "Stdout (''# Datacenter ('' @ env @ '') Specific Vars:'')
                 # printVars w (entries w c env dc DatacenterVars)
                 @ Stdout (''# Datacenter ('' @ env @ '') Specific Secrets:'')
                 # fst (printSecrets w (entries w c env dc DatacenterSecrets))" Success]
        no_failed_fetch_printSecrets [OF None]
      by (simp add: printDatacenter_v2 no_failed_fetch_def)
  next
    case (Some e)
    from fail_fast_prepend [OF banner fail_fast_secrets_exit [OF Some]]
    show ?thesis using False Some by (simp add: printDatacenter_v2)
  qed
qed

lemma fail_fast_emit: "fail_fast w (emit w l c env dc)"
proof (cases "snd (printSecrets w (entries w c env dc GlobalSecrets))")
  case (Some e)
  from fail_fast_prepend [OF no_failed_fetch_printGlobalVars fail_fast_secrets_exit [OF Some]]
  show ?thesis by (simp add: emit_global_fails [OF Some])
next
  case None
  note g = this
  have pre: "no_failed_fetch w
    (printGlobalVars w c env dc @ fst (printSecrets w (entries w c env dc GlobalSecrets))
       @ printEnvironmentVars w c env dc)"
    by (simp add: no_failed_fetch_append no_failed_fetch_printGlobalVars
          no_failed_fetch_printEnvironmentVars no_failed_fetch_printSecrets [OF g])
  show ?thesis
  proof (cases "snd (printSecrets w (entries w c env dc EnvironmentSecrets))")
    case (Some e)
    from fail_fast_prepend [OF pre fail_fast_secrets_exit [OF Some]]
    show ?thesis by (simp add: emit_environment_fails [OF g Some])
  next
    case None
    have "no_failed_fetch w
      ((printGlobalVars w c env dc @ fst (printSecrets w (entries w c env dc GlobalSecrets))
         @ printEnvironmentVars w c env dc)
       @ fst (printSecrets w (entries w c env dc EnvironmentSecrets)))"
      using pre no_failed_fetch_printSecrets [OF None]
      by (simp add: no_failed_fetch_append)
    from fail_fast_prepend [OF this, of "fst (printDatacenter w l c env dc)"
           "snd (printDatacenter w l c env dc)"] fail_fast_printDatacenter [of w l c env dc]
    show ?thesis by (simp add: emit_reaches_datacenter [OF g None])
  qed
qed

lemma enableMlock_no_failed_fetch: "no_failed_fetch w (enableMlock w m)"
  by (simp add: no_failed_fetch_def enableMlock_silent)

lemma loadConfig_no_Fetch: "Fetch p \<notin> set (fst (loadConfig w bytes))"
  by (auto simp: loadConfig_def split: prod.splits option.splits)

lemma fail_fast_Action: "fail_fast w (Action w env dc f m)"
proof (cases "env = ''''")
  case True
  then show ?thesis
    by (simp add: Action_def fail_fast_clean enableMlock_no_failed_fetch)
next
  case False
  note env = this
  show ?thesis
  proof (cases "read_file w (abs_path w f)")
    case None
    have "no_failed_fetch w (enableMlock w m @ [ReadFile (abs_path w f)])"
      by (simp add: no_failed_fetch_def enableMlock_silent)
    with env None show ?thesis by (simp add: Action_def fail_fast_clean)
  next
    case (Some bytes)
    obtain tr res where lc: "loadConfig w bytes = (tr, res)" by (cases "loadConfig w bytes")
    have pre: "no_failed_fetch w (enableMlock w m @ [ReadFile (abs_path w f)] @ tr)"
      using loadConfig_no_Fetch [of _ w bytes] lc
      by (simp add: no_failed_fetch_def enableMlock_silent)
    show ?thesis
    proof (cases res)
      case (Inl failed)
      with env Some lc pre show ?thesis by (simp add: Action_def fail_fast_clean)
    next
      case (Inr l)
      from fail_fast_prepend [OF pre, of "fst (emit w (legacy l) (config l) env dc)"
             "snd (emit w (legacy l) (config l) env dc)"] fail_fast_emit
      show ?thesis using Action_emit [OF env Some, of tr l dc m] lc Inr by simp
    qed
  qed
qed

section \<open>Exit code 6 comes from a failing fetch\<close>

lemma printSecrets_Some:
  "snd (printSecrets w kps) = Some e \<Longrightarrow>
   \<exists>pre p. fst (printSecrets w kps) = pre @ [Fetch p] \<and> GetVaultSecret w p = Inl e"
proof (induction kps)
  case Nil
  then show ?case by simp
next
  case (Cons kp kps)
  obtain k path where kp: "kp = (k, path)" by (cases kp)
  show ?case
  proof (cases "GetVaultSecret w path")
    case (Inl err)
    with Cons.prems kp show ?thesis by auto
  next
    case (Inr d)
    with Cons.prems kp have "snd (printSecrets w kps) = Some e"
      by (simp add: case_prod_beta)
    from Cons.IH [OF this] obtain pre p
      where "fst (printSecrets w kps) = pre @ [Fetch p]" "GetVaultSecret w p = Inl e"
      by blast
    with Inr kp show ?thesis
      by (intro exI [where x = "Fetch path # Stdout (exportSecret w k d path) # pre"]
            exI [where x = p]) (simp add: case_prod_beta)
  qed
qed

lemma emit_exit:
  assumes "snd (emit w l c env dc) = ExitError e code"
  shows "code = VaultErrorCode
    \<and> (\<exists>pre p. fst (emit w l c env dc) = pre @ [Fetch p] \<and> GetVaultSecret w p = Inl e)"
proof (cases "snd (printSecrets w (entries w c env dc GlobalSecrets))")
  case (Some e')
  from printSecrets_Some [OF Some] assms show ?thesis
    by (auto simp: emit_global_fails [OF Some])
next
  case None
  note g = this
  show ?thesis
  proof (cases "snd (printSecrets w (entries w c env dc EnvironmentSecrets))")
    case (Some e')
    from printSecrets_Some [OF Some] assms show ?thesis
      by (auto simp: emit_environment_fails [OF g Some])
  next
    case None
    note ev = this
    from assms have dcx: "snd (printDatacenter w l c env dc) = ExitError e code"
      by (simp add: emit_reaches_datacenter [OF g ev])
    then have v2: "\<not> l" by (auto simp: printDatacenter_legacy)
    with dcx obtain e' where
      s: "snd (printSecrets w (entries w c env dc DatacenterSecrets)) = Some e'"
      by (cases "snd (printSecrets w (entries w c env dc DatacenterSecrets))")
        (auto simp: printDatacenter_v2)
    with dcx v2 have "e' = e" "code = VaultErrorCode" by (auto simp: printDatacenter_v2)
    with printSecrets_Some [OF s] v2 show ?thesis
      by (auto simp: emit_reaches_datacenter [OF g ev] printDatacenter_v2)
  qed
qed

lemma Action_exit_6:
  assumes "exit_code (snd (Action w env dc f m)) = 6"
  shows "\<exists>pre p msg. fst (Action w env dc f m) = pre @ [Fetch p]
           \<and> GetVaultSecret w p = Inl msg
           \<and> snd (Action w env dc f m) = ExitError msg VaultErrorCode"
proof -
  from assms have env: "env \<noteq> ''''" by (auto simp: Action_def EnvErrorCode_def)
  from assms env obtain bytes where rd: "read_file w (abs_path w f) = Some bytes"
    by (cases "read_file w (abs_path w f)") (auto simp: Action_def)
  obtain tr res where lc: "loadConfig w bytes = (tr, res)" by (cases "loadConfig w bytes")
  from assms env rd lc obtain l where res: "res = Inr l"
    by (cases res)
      (auto simp: Action_def loadConfig_def YamlErrorCode_def split: prod.splits option.splits)
  note A = Action_emit [OF env rd, of tr l dc m]
  from assms A lc res obtain e code
    where x: "snd (emit w (legacy l) (config l) env dc) = ExitError e code"
    by (cases "snd (emit w (legacy l) (config l) env dc)") auto
  from emit_exit [OF x] obtain pre p where
    "code = VaultErrorCode" "fst (emit w (legacy l) (config l) env dc) = pre @ [Fetch p]"
    "GetVaultSecret w p = Inl e"
    by blast
  with A lc res x show ?thesis
    by (intro exI [where x = "enableMlock w m @ [ReadFile (abs_path w f)] @ tr @ pre"]
          exI [where x = p] exI [where x = e]) simp
qed

section \<open>A partial run prints a prefix of the full run\<close>

lemma fmt_q_vault: "fmt_q (w\<lparr>vault := v\<rparr>) x = fmt_q w x"
  by (induction w x rule: fmt_q.induct) (simp_all add: Quote_update)

lemma printVars_vault: "printVars (w\<lparr>vault := v\<rparr>) kvs = printVars w kvs"
  by (induction w kvs rule: printVars.induct) (simp_all add: exportVar_def Quote_update)

lemma vault_update:
  "exportSecret (w\<lparr>vault := v\<rparr>) k d p = exportSecret w k d p"
  "entries (w\<lparr>vault := v\<rparr>) c env dc b = entries w c env dc b"
  "enableMlock (w\<lparr>vault := v\<rparr>) m = enableMlock w m"
  "loadConfig (w\<lparr>vault := v\<rparr>) bytes = loadConfig w bytes"
  "printGlobalVars (w\<lparr>vault := v\<rparr>) c env dc = printGlobalVars w c env dc"
  "printEnvironmentVars (w\<lparr>vault := v\<rparr>) c env dc = printEnvironmentVars w c env dc"
  by (simp_all add: exportSecret_def fmt_q_vault entries_def enableMlock_def loadConfig_def
        printGlobalVars_def printEnvironmentVars_def printVars_vault
      split: prod.splits option.splits)

lemma printSecrets_more_secrets:
  assumes "\<forall>p d. vault w p = Secret d \<longrightarrow> v p = Secret d"
  shows "prefix (stdout_of (fst (printSecrets w kps)))
           (stdout_of (fst (printSecrets (w\<lparr>vault := v\<rparr>) kps)))
    \<and> (snd (printSecrets w kps) = None \<longrightarrow>
         printSecrets (w\<lparr>vault := v\<rparr>) kps = printSecrets w kps)"
proof (induction kps)
  case Nil
  then show ?case by simp
next
  case (Cons kp kps)
  obtain k path where kp: "kp = (k, path)" by (cases kp)
  show ?case
  proof (cases "GetVaultSecret w path")
    case (Inl err)
    with kp show ?thesis by simp
  next
    case (Inr d)
    then have "vault w path = Secret d" by (simp add: GetVaultSecret_Inr_iff)
    with assms have "GetVaultSecret (w\<lparr>vault := v\<rparr>) path = Inr d"
      by (simp add: GetVaultSecret_Inr_iff)
    with Inr Cons.IH show ?thesis
      unfolding kp by (simp add: case_prod_beta vault_update prod_eq_iff)
  qed
qed

lemma emit_starts_global:
  "\<exists>rest. fst (emit w l c env dc) =
     printGlobalVars w c env dc @ fst (printSecrets w (entries w c env dc GlobalSecrets)) @ rest"
proof (cases "snd (printSecrets w (entries w c env dc GlobalSecrets))")
  case (Some e)
  then show ?thesis by (simp add: emit_global_fails)
next
  case None
  note g = this
  show ?thesis
  proof (cases "snd (printSecrets w (entries w c env dc EnvironmentSecrets))")
    case (Some e)
    with g show ?thesis by (simp add: emit_environment_fails)
  next
    case None
    with g show ?thesis by (simp add: emit_reaches_datacenter)
  qed
qed

lemma emit_starts_environment:
  assumes "snd (printSecrets w (entries w c env dc GlobalSecrets)) = None"
  shows "\<exists>rest. fst (emit w l c env dc) =
     printGlobalVars w c env dc @ fst (printSecrets w (entries w c env dc GlobalSecrets))
       @ printEnvironmentVars w c env dc
       @ fst (printSecrets w (entries w c env dc EnvironmentSecrets)) @ rest"
proof (cases "snd (printSecrets w (entries w c env dc EnvironmentSecrets))")
  case (Some e)
  with assms show ?thesis by (simp add: emit_environment_fails)
next
  case None
  with assms show ?thesis by (simp add: emit_reaches_datacenter)
qed

lemma emit_more_secrets:
  assumes ext: "\<forall>p d. vault w p = Secret d \<longrightarrow> v p = Secret d"
  shows "prefix (stdout_of (fst (emit w l c env dc)))
           (stdout_of (fst (emit (w\<lparr>vault := v\<rparr>) l c env dc)))"
proof -
  let ?w' = "w\<lparr>vault := v\<rparr>"
  note m = printSecrets_more_secrets [OF ext]
  show ?thesis
  proof (cases "snd (printSecrets w (entries w c env dc GlobalSecrets))")
    case (Some e)
    from emit_starts_global [of ?w' l c env dc] obtain rest where
      "fst (emit ?w' l c env dc) =
         printGlobalVars w c env dc
           @ fst (printSecrets ?w' (entries w c env dc GlobalSecrets)) @ rest"
      by (auto simp: vault_update)
    with m [of "entries w c env dc GlobalSecrets"] show ?thesis
      by (simp add: emit_global_fails [OF Some] stdout_of_append)
  next
    case None
    note g = this
    with m [of "entries w c env dc GlobalSecrets"]
    have g': "printSecrets ?w' (entries w c env dc GlobalSecrets)
                = printSecrets w (entries w c env dc GlobalSecrets)"
      by simp
    then have g'': "snd (printSecrets ?w' (entries ?w' c env dc GlobalSecrets)) = None"
      using g by (simp add: vault_update)
    show ?thesis
    proof (cases "snd (printSecrets w (entries w c env dc EnvironmentSecrets))")
      case (Some e)
      from emit_starts_environment [OF g'', of l] obtain rest where
        "fst (emit ?w' l c env dc) =
           printGlobalVars w c env dc @ fst (printSecrets w (entries w c env dc GlobalSecrets))
             @ printEnvironmentVars w c env dc
             @ fst (printSecrets ?w' (entries w c env dc EnvironmentSecrets)) @ rest"
        by (auto simp: vault_update g')
      with m [of "entries w c env dc EnvironmentSecrets"] show ?thesis
        by (simp add: emit_environment_fails [OF g Some] stdout_of_append)
    next
      case None
      note ev = this
      with m [of "entries w c env dc EnvironmentSecrets"]
      have e': "printSecrets ?w' (entries w c env dc EnvironmentSecrets)
                  = printSecrets w (entries w c env dc EnvironmentSecrets)"
        by simp
      then have e'': "snd (printSecrets ?w' (entries ?w' c env dc EnvironmentSecrets)) = None"
        using ev by (simp add: vault_update)
      have "prefix (stdout_of (fst (printDatacenter w l c env dc)))
              (stdout_of (fst (printDatacenter ?w' l c env dc)))"
        using m [of "entries w c env dc DatacenterSecrets"]
        by (cases l)
          (simp_all add: printDatacenter_legacy printDatacenter_v2 vault_update
             printVars_vault stdout_of_append)
      then show ?thesis
        by (simp add: emit_reaches_datacenter [OF g ev] emit_reaches_datacenter [OF g'' e'']
              vault_update g' e' stdout_of_append)
    qed
  qed
qed

lemma Action_more_secrets:
  assumes ext: "\<forall>p d. vault w p = Secret d \<longrightarrow> v p = Secret d"
  shows "prefix (stdout_of (fst (Action w env dc f m)))
           (stdout_of (fst (Action (w\<lparr>vault := v\<rparr>) env dc f m)))"
proof (cases "env = ''''")
  case True
  then show ?thesis by (simp add: Action_def vault_update)
next
  case False
  note env = this
  show ?thesis
  proof (cases "read_file w (abs_path w f)")
    case None
    with env show ?thesis by (simp add: Action_def vault_update)
  next
    case (Some bytes)
    obtain tr res where lc: "loadConfig w bytes = (tr, res)" by (cases "loadConfig w bytes")
    show ?thesis
    proof (cases res)
      case (Inl failed)
      with env Some lc show ?thesis by (simp add: Action_def vault_update)
    next
      case (Inr l)
      have rd: "read_file (w\<lparr>vault := v\<rparr>) (abs_path (w\<lparr>vault := v\<rparr>) f) = Some bytes"
        using Some by simp
      have lc': "loadConfig (w\<lparr>vault := v\<rparr>) bytes = (tr, Inr l)"
        using lc Inr by (simp add: vault_update)
      from lc Inr have lc0: "loadConfig w bytes = (tr, Inr l)" by simp
      show ?thesis
        using emit_more_secrets [OF ext, of "legacy l" "config l" env dc]
        by (simp add: Action_emit [OF env Some lc0] Action_emit [OF env rd lc']
              vault_update stdout_of_append)
    qed
  qed
qed

section \<open>Runs that differ in the iteration order\<close>

lemma fmt_q_order: "fmt_q (w\<lparr>range_order := ord\<rparr>) x = fmt_q w x"
  by (induction w x rule: fmt_q.induct) (simp_all add: Quote_update)

lemma order_update:
  "exportVar (w\<lparr>range_order := ord\<rparr>) k x = exportVar w k x"
  "exportSecret (w\<lparr>range_order := ord\<rparr>) k d p = exportSecret w k d p"
  "GetVaultSecret (w\<lparr>range_order := ord\<rparr>) p = GetVaultSecret w p"
  "entries (w\<lparr>range_order := ord\<rparr>) c env dc b = rangeMap (bucket_map c env dc b) (ord b)"
  "enableMlock (w\<lparr>range_order := ord\<rparr>) m = enableMlock w m"
  "loadConfig (w\<lparr>range_order := ord\<rparr>) bytes = loadConfig w bytes"
  by (simp_all add: exportVar_def Quote_update exportSecret_def fmt_q_order GetVaultSecret_def
        entries_def enableMlock_def loadConfig_def split: prod.splits option.splits)

lemma secretLine_order: "secretLine (w\<lparr>range_order := ord\<rparr>) = secretLine w"
  by (rule ext) (simp add: secretLine_def order_update split: sum.splits)

lemma printSecrets_order: "printSecrets (w\<lparr>range_order := ord\<rparr>) kps = printSecrets w kps"
  by (induction kps) (auto simp: order_update split: sum.splits prod.splits)

lemma mset_rangeMap:
  assumes "valid_order m ks" and "valid_order m ks'"
  shows "mset (rangeMap m ks') = mset (rangeMap m ks)"
proof -
  from assms have "mset ks' = mset ks"
    by (simp add: valid_order_def set_eq_iff_mset_eq_distinct [symmetric])
  then have "mset (filter (\<lambda>k. map_option (Pair k) (m k) \<noteq> None) ks')
               = mset (filter (\<lambda>k. map_option (Pair k) (m k) \<noteq> None) ks)"
    by (simp only: mset_filter)
  then have "image_mset (the \<circ> (\<lambda>k. map_option (Pair k) (m k)))
                (mset (filter (\<lambda>k. map_option (Pair k) (m k) \<noteq> None) ks'))
             = image_mset (the \<circ> (\<lambda>k. map_option (Pair k) (m k)))
                (mset (filter (\<lambda>k. map_option (Pair k) (m k) \<noteq> None) ks))"
    by simp
  then show ?thesis
    by (simp only: rangeMap_def List.map_filter_def mset_map)
qed

lemma mset_entries:
  assumes "valid_order (bucket_map c env dc b) (range_order w b)"
    and "valid_order (bucket_map c env dc b) (ord b)"
  shows "mset (entries (w\<lparr>range_order := ord\<rparr>) c env dc b) = mset (entries w c env dc b)"
  using mset_rangeMap [OF assms] by (simp add: order_update entries_def)

lemma secrets_succeed_order:
  assumes "valid_order (bucket_map c env dc b) (range_order w b)"
    and "valid_order (bucket_map c env dc b) (ord b)"
  shows "snd (printSecrets (w\<lparr>range_order := ord\<rparr>)
                (entries (w\<lparr>range_order := ord\<rparr>) c env dc b)) = None
         \<longleftrightarrow> snd (printSecrets w (entries w c env dc b)) = None"
proof -
  from mset_entries [where ord = ord, OF assms]
  have "set (entries (w\<lparr>range_order := ord\<rparr>) c env dc b) = set (entries w c env dc b)"
    by (rule mset_eq_setD)
  then show ?thesis
    by (simp add: printSecrets_None_iff)
qed

lemma stdout_of_printSecrets:
  "snd (printSecrets w kps) = None \<Longrightarrow>
   stdout_of (fst (printSecrets w kps)) = map (secretLine w) kps"
proof (induction kps)
  case Nil
  then show ?case by simp
next
  case (Cons kp kps)
  obtain k path where kp: "kp = (k, path)" by (cases kp)
  from Cons.prems obtain d where d: "GetVaultSecret w path = Inr d"
    unfolding kp by (cases "GetVaultSecret w path") auto
  with Cons.prems have "snd (printSecrets w kps) = None"
    unfolding kp by (simp add: case_prod_beta)
  with Cons.IH d show ?case
    unfolding kp by (simp add: case_prod_beta secretLine_def)
qed

lemma emit_Success_iff:
  "snd (emit w l c env dc) = Success \<longleftrightarrow>
     snd (printSecrets w (entries w c env dc GlobalSecrets)) = None
     \<and> snd (printSecrets w (entries w c env dc EnvironmentSecrets)) = None
     \<and> (l \<or> snd (printSecrets w (entries w c env dc DatacenterSecrets)) = None)"
proof (cases "snd (printSecrets w (entries w c env dc GlobalSecrets))")
  case (Some e)
  then show ?thesis by (simp add: emit_global_fails)
next
  case None
  note g = this
  show ?thesis
  proof (cases "snd (printSecrets w (entries w c env dc EnvironmentSecrets))")
    case (Some e)
    with g show ?thesis by (simp add: emit_environment_fails)
  next
    case None
    with g show ?thesis
      by (cases l)
        (auto simp: emit_reaches_datacenter printDatacenter_legacy printDatacenter_v2
           split: option.splits)
  qed
qed

lemma emit_exit_code:
  "exit_code (snd (emit w l c env dc)) =
     (if snd (emit w l c env dc) = Success then 0 else 6)"
proof (cases "snd (emit w l c env dc)")
  case Success
  then show ?thesis by simp
next
  case (ExitError e code)
  from emit_exit [OF this] ExitError show ?thesis by (simp add: VaultErrorCode_def)
qed

lemma sample_orders_valid:
  "valid_order (bucket_map secrets_config ''dev'' '''' b)
     (range_order (sample_world [''A'', ''B''] []) b)"
  "valid_order (bucket_map secrets_config ''dev'' '''' b)
     (range_order (sample_world [''B'', ''A''] []) b)"
  by (cases b; auto simp: valid_order_def model_defs sample_defs)+

lemma sections_skip:
  "\<forall>x \<in> set xs. \<not> is_banner x \<Longrightarrow> sections (xs @ rest) = sections rest"
  by (induction xs) simp_all

lemma flat_Cons: "flat (s # S) = fst s # snd s @ flat S"
  by (simp add: flat_def)

lemma flat_Nil: "flat [] = []"
  by (simp add: flat_def)

lemma flat_append: "flat (S @ T) = flat S @ flat T"
  by (simp add: flat_def)

lemma takeWhile_flat:
  assumes "wf_sections S" and "\<forall>x \<in> set xs. \<not> is_banner x"
  shows "takeWhile (\<lambda>x. \<not> is_banner x) (xs @ flat S) = xs"
proof (cases S)
  case Nil
  with assms(2) show ?thesis by (simp add: flat_Nil)
next
  case (Cons s T)
  with assms(1) have "is_banner (fst s)" by (simp add: wf_sections_def)
  with assms(2) Cons show ?thesis by (simp add: flat_Cons takeWhile_append1 takeWhile_tail)
qed

lemma sections_flat: "wf_sections S \<Longrightarrow> sections (flat S) = S"
proof (induction S)
  case Nil
  then show ?case by (simp add: flat_Nil)
next
  case (Cons s S)
  from Cons.prems have b: "is_banner (fst s)" and n: "\<forall>x \<in> set (snd s). \<not> is_banner x"
    and w: "wf_sections S"
    by (simp_all add: wf_sections_def)
  from takeWhile_flat [OF w n] sections_skip [OF n, of "flat S"] Cons.IH [OF w] b
  show ?case by (simp add: flat_Cons)
qed

lemma flat_sections:
  "wf_sections S \<Longrightarrow> concat (map (\<lambda>s. fst s # snd s) (sections (flat S))) = flat S"
  by (simp add: sections_flat) (simp add: flat_def)

lemma exportVar_no_banner: "\<not> is_banner (exportVar w k v)"
  by (simp add: is_banner_def exportVar_def)

lemma exportSecret_no_banner: "\<not> is_banner (exportSecret w k d p)"
  by (simp add: is_banner_def exportSecret_def)

lemma printSecrets_no_banner:
  "x \<in> set (stdout_of (fst (printSecrets w kps))) \<Longrightarrow> \<not> is_banner x"
  by (induction kps arbitrary: x)
     (auto simp: exportSecret_no_banner split: sum.splits prod.splits)

lemma wf_run_sections: "wf_sections (run_sections w l c env dc)"
  by (auto simp: wf_sections_def run_sections_def is_banner_def exportVar_def
        dest: printSecrets_no_banner)


lemma stdout_of_emit:
  "stdout_of (fst (emit w l c env dc)) = flat (run_sections w l c env dc)"
proof (cases "snd (printSecrets w (entries w c env dc GlobalSecrets))")
  case (Some e)
  then show ?thesis
    by (simp add: emit_global_fails run_sections_def flat_def stdout_of_append
          stdout_of_printVars printGlobalVars_def)
next
  case None
  note g = this
  show ?thesis
  proof (cases "snd (printSecrets w (entries w c env dc EnvironmentSecrets))")
    case (Some e)
    with g show ?thesis
      by (simp add: emit_environment_fails run_sections_def flat_def stdout_of_append
            stdout_of_printVars printGlobalVars_def printEnvironmentVars_def)
  next
    case None
    with g show ?thesis
      by (cases l)
         (simp_all add: emit_reaches_datacenter printDatacenter_legacy printDatacenter_v2
            run_sections_def flat_def stdout_of_append stdout_of_printVars
            printGlobalVars_def printEnvironmentVars_def)
  qed
qed

lemma sections_emit:
  "sections (stdout_of (fst (emit w l c env dc))) = run_sections w l c env dc"
  by (simp add: stdout_of_emit sections_flat wf_run_sections)

lemma same_section_refl: "list_all2 same_section S S"
  by (simp add: list_all2_refl same_section_def)

lemma list_all2_butlast:
  "list_all2 P xs ys \<Longrightarrow> list_all2 P (butlast xs) (butlast ys)"
  by (induction rule: list_all2_induct) (auto simp: list_all2_Nil)

lemma var_lines_order:
  assumes "valid_order (bucket_map c env dc b) (range_order w b)"
    and "valid_order (bucket_map c env dc b) (ord b)"
  shows "mset (map (\<lambda>(k, v). exportVar (w\<lparr>range_order := ord\<rparr>) k v)
                  (entries (w\<lparr>range_order := ord\<rparr>) c env dc b))
           = mset (map (\<lambda>(k, v). exportVar w k v) (entries w c env dc b))"
  using mset_entries [where ord = ord, OF assms] by (simp only: order_update(1) mset_map)

lemma secret_lines_order:
  assumes "valid_order (bucket_map c env dc b) (range_order w b)"
    and "valid_order (bucket_map c env dc b) (ord b)"
    and "snd (printSecrets w (entries w c env dc b)) = None"
  shows "mset (stdout_of (fst (printSecrets (w\<lparr>range_order := ord\<rparr>)
                  (entries (w\<lparr>range_order := ord\<rparr>) c env dc b))))
           = mset (stdout_of (fst (printSecrets w (entries w c env dc b))))"
proof -
  from assms(3) secrets_succeed_order [where ord = ord, OF assms(1,2)]
  have ok: "snd (printSecrets (w\<lparr>range_order := ord\<rparr>)
                (entries (w\<lparr>range_order := ord\<rparr>) c env dc b)) = None"
    by simp
  from mset_entries [where ord = ord, OF assms(1,2)]
  have "mset (map (secretLine (w\<lparr>range_order := ord\<rparr>))
                  (entries (w\<lparr>range_order := ord\<rparr>) c env dc b))
           = mset (map (secretLine w) (entries w c env dc b))"
    by (simp only: secretLine_order mset_map)
  then show ?thesis
    by (simp only: stdout_of_printSecrets [OF ok] stdout_of_printSecrets [OF assms(3)])
qed

lemma same_section_same: "same_section s s"
  by (simp add: same_section_def)

lemma run_sections_order:
  assumes "\<forall>b. valid_order (bucket_map c env dc b) (range_order w b)"
    and "\<forall>b. valid_order (bucket_map c env dc b) (ord b)"
  shows "map fst (run_sections (w\<lparr>range_order := ord\<rparr>) l c env dc)
           = map fst (run_sections w l c env dc)"
    and "list_all2 same_section
           (butlast (run_sections (w\<lparr>range_order := ord\<rparr>) l c env dc))
           (butlast (run_sections w l c env dc))"
    and "snd (emit w l c env dc) = Success \<Longrightarrow>
         list_all2 same_section
           (run_sections (w\<lparr>range_order := ord\<rparr>) l c env dc)
           (run_sections w l c env dc)"
proof -
  let ?w' = "w\<lparr>range_order := ord\<rparr>"
  have s: "snd (printSecrets ?w' (entries ?w' c env dc b)) = None
              \<longleftrightarrow> snd (printSecrets w (entries w c env dc b)) = None" for b
    using secrets_succeed_order [where ord = ord and w = w and c = c and env = env
            and dc = dc and b = b] assms
    by blast
  have v: "same_section
             (bn, map (\<lambda>(k, v). exportVar ?w' k v) (entries ?w' c env dc b))
             (bn, map (\<lambda>(k, v). exportVar w k v) (entries w c env dc b))" for b bn
    using var_lines_order [where ord = ord and w = w and c = c and env = env
            and dc = dc and b = b] assms
    unfolding same_section_def by simp
  have t: "same_section
             (bn, stdout_of (fst (printSecrets ?w' (entries ?w' c env dc b))))
             (bn, stdout_of (fst (printSecrets w (entries w c env dc b))))"
    if "snd (printSecrets w (entries w c env dc b)) = None" for b bn
    using secret_lines_order [where ord = ord and w = w and c = c and env = env
            and dc = dc and b = b] assms that
    unfolding same_section_def by simp
  show "map fst (run_sections ?w' l c env dc) = map fst (run_sections w l c env dc)"
    by (simp add: run_sections_def s)
  have a: "\<forall>b. (snd (printSecrets ?w' (entries ?w' c env dc b)) = None)
               = (snd (printSecrets w (entries w c env dc b)) = None)"
    "\<forall>b bn. same_section
             (bn, map (\<lambda>(k, v). exportVar ?w' k v) (entries ?w' c env dc b))
             (bn, map (\<lambda>(k, v). exportVar w k v) (entries w c env dc b))"
    "\<forall>b bn. snd (printSecrets w (entries w c env dc b)) = None \<longrightarrow>
        same_section
             (bn, stdout_of (fst (printSecrets ?w' (entries ?w' c env dc b))))
             (bn, stdout_of (fst (printSecrets w (entries w c env dc b))))"
    using s v t by blast+
  from a show "list_all2 same_section (butlast (run_sections ?w' l c env dc))
           (butlast (run_sections w l c env dc))"
    by (cases "snd (printSecrets w (entries w c env dc GlobalSecrets))";
        cases "snd (printSecrets w (entries w c env dc EnvironmentSecrets))";
        cases l; cases "dc = []")
       (simp_all add: run_sections_def same_section_same)
  show "list_all2 same_section (run_sections ?w' l c env dc) (run_sections w l c env dc)"
    if "snd (emit w l c env dc) = Success"
  proof -
    from that have g: "snd (printSecrets w (entries w c env dc GlobalSecrets)) = None"
      and e: "snd (printSecrets w (entries w c env dc EnvironmentSecrets)) = None"
      and d: "l \<or> snd (printSecrets w (entries w c env dc DatacenterSecrets)) = None"
      by (simp_all add: emit_Success_iff)
    from a g e d show ?thesis
      by (cases l; cases "dc = []") (simp_all add: run_sections_def same_section_same)
  qed
qed

lemma banners_of_sections: "map fst (sections xs) = filter is_banner xs"
  by (induction xs) simp_all

lemma Action_order_no_emit:
  assumes "env = [] \<or> run_config w f = None"
  shows "Action (w\<lparr>range_order := ord\<rparr>) env dc f m = Action w env dc f m"
  using assms
  by (auto simp: Action_def run_config_def order_update
        split: option.splits prod.splits sum.splits)

lemma run_config_Some:
  assumes "run_config w f = Some c"
  obtains bytes tr l where "read_file w (abs_path w f) = Some bytes"
    and "loadConfig w bytes = (tr, Inr l)" and "config l = c"
  using assms
  by (auto simp: run_config_def split: option.splits sum.splits) (metis prod.collapse)

section \<open>The value decoded into the legacy shape is not read\<close>

lemma fmt_q_v1: "fmt_q (w\<lparr>unmarshal_v1 := u\<rparr>) x = fmt_q w x"
  by (induction w x rule: fmt_q.induct) (simp_all add: Quote_update)

lemma printVars_v1: "printVars (w\<lparr>unmarshal_v1 := u\<rparr>) kvs = printVars w kvs"
  by (induction w kvs rule: printVars.induct) (simp_all add: exportVar_def Quote_update)

lemma printSecrets_v1: "printSecrets (w\<lparr>unmarshal_v1 := u\<rparr>) kps = printSecrets w kps"
  by (induction kps)
    (auto simp: GetVaultSecret_def exportSecret_def fmt_q_v1 split: sum.splits prod.splits)

lemma emit_v1: "emit (w\<lparr>unmarshal_v1 := u\<rparr>) l c env dc = emit w l c env dc"
  by (simp add: emit_def printDatacenter_def printGlobalVars_def printEnvironmentVars_def
        entries_def printVars_v1 printSecrets_v1)

lemma configV1_is_not_read:
  "Action (w\<lparr>unmarshal_v1 := \<lambda>bytes. (cl, snd (unmarshal_v1 w bytes))\<rparr>) env dc f m
     = Action w env dc f m"
  by (auto simp: Action_def loadConfig_def enableMlock_def emit_v1
        split: prod.splits option.splits)

section \<open>The claims\<close>

text \<open>
  Claim C1, on the legacy document \<open>doc_v1\<close> with \<^verbatim>\<open>-e dev -d us_east\<close>. The loader
  decodes the flat datacenter \<^verbatim>\<open>{vars: us-east-1}\<close> into \<^verbatim>\<open>configV1\<close> and sets
  \<^verbatim>\<open>legacy\<close>; the run prints the banner \<^verbatim>\<open># Datacenter (us_east) Specific Vars:\<close> and no
  secrets banner, and then no export line at all: the loop ranges over the datacenter of
  \<^verbatim>\<open>config\<close>, which is empty, and the var of the flat mapping is never printed. No run
  depends on the value decoded into \<^verbatim>\<open>configV1\<close> (lemma \<open>configV1_is_not_read\<close>).
\<close>

theorem legacy_run_does_not_read_configV1:
  "loadConfig (sample_world [] []) doc_v1 =
     ([Unmarshal V2, Unmarshal V1],
      Inr \<lparr>config = v1_partial, configV1 = translateV1 v2_config, legacy = True\<rparr>)
   \<and> index Map.empty
        (env1_Dcs (index zeroEnvironmentV1 (Environments1 (translateV1 v2_config)) ''dev''))
        ''us_east'' ''vars'' = Some ''us-east-1''
   \<and> Action (sample_world [] []) ''dev'' ''us_east'' ''variables.yml'' False =
       ([ReadFile ''/work/variables.yml'', Unmarshal V2, Unmarshal V1,
         Stdout ''# Setting Variables for:'', Stdout ''# Environment: dev'',
         Stdout ''# Datacenter: us_east'', Stdout ''# Global Vars:'',
         Stdout ''# Global Secrets:'', Stdout ''# Environment (dev) Vars:'',
         Stdout ''# Environment (dev) Secrets:'',
         Stdout ''# Datacenter (us_east) Specific Vars:''],
        Success)"
  by (simp add: model_defs sample_defs)

text \<open>
  Claim C2 as stated fails. \<open>doc_v2\<close> is a document of the current shape without
  datacenter secrets, \<open>doc_v1\<close> its translation; with \<^verbatim>\<open>-e dev -d us_east\<close> the output
  for \<open>doc_v1\<close> is not the output for \<open>doc_v2\<close> without the secrets banner of the
  datacenter.
\<close>

theorem round_trip_counterexample:
  "unmarshal_v2 (sample_world [] [''vars'']) doc_v2 = (v2_config, None)
   \<and> bucket_map v2_config ''dev'' ''us_east'' DatacenterSecrets = Map.empty
   \<and> loadConfig (sample_world [] []) doc_v1 =
       ([Unmarshal V2, Unmarshal V1],
        Inr \<lparr>config = v1_partial, configV1 = translateV1 v2_config, legacy = True\<rparr>)
   \<and> stdout_of (fst (Action (sample_world [] [''vars'']) ''dev'' ''us_east'' ''v2.yml'' False))
       = [''# Setting Variables for:'', ''# Environment: dev'', ''# Datacenter: us_east'',
          ''# Global Vars:'', ''# Global Secrets:'', ''# Environment (dev) Vars:'',
          ''# Environment (dev) Secrets:'', ''# Datacenter (dev) Specific Vars:'',
          ''export vars='' @ [dquote] @ ''us-east-1'' @ [dquote],
          ''# Datacenter (dev) Specific Secrets:'']
   \<and> stdout_of (fst (Action (sample_world [] []) ''dev'' ''us_east'' ''variables.yml'' False))
       = [''# Setting Variables for:'', ''# Environment: dev'', ''# Datacenter: us_east'',
          ''# Global Vars:'', ''# Global Secrets:'', ''# Environment (dev) Vars:'',
          ''# Environment (dev) Secrets:'', ''# Datacenter (us_east) Specific Vars:'']
   \<and> ''# Datacenter (dev) Specific Vars:''
       \<notin> set (stdout_of
                (fst (Action (sample_world [] []) ''dev'' ''us_east'' ''variables.yml'' False)))
   \<and> stdout_of (fst (Action (sample_world [] []) ''dev'' ''us_east'' ''variables.yml'' False))
       \<noteq> filter (\<lambda>l. l \<noteq> ''# Datacenter (dev) Specific Secrets:'')
            (stdout_of
              (fst (Action (sample_world [] [''vars'']) ''dev'' ''us_east'' ''v2.yml'' False)))"
  by (simp add: model_defs sample_defs)

text \<open>
  Claim C2, as amended. For a decoded configuration without datacenter secrets at
  \<open>(env, dc)\<close>, the legacy layout and the current layout of the same configuration end
  with the same outcome and, when a fetch fails, are the same run. Otherwise they share
  every event up to the end of the environment secrets; after it the current layout prints
  the banner \<^verbatim>\<open># Datacenter (<env>) Specific Vars:\<close>, the datacenter vars and the banner
  \<^verbatim>\<open># Datacenter (<env>) Specific Secrets:\<close>, for any \<open>dc\<close>, and the legacy layout prints
  \<^verbatim>\<open># Datacenter (<dc>) Specific Vars:\<close> and the same vars when \<open>dc\<close> is not empty and
  nothing when it is.
\<close>

theorem layouts_differ_in_datacenter_section:
  assumes "bucket_map c env dc DatacenterSecrets = Map.empty"
  shows "snd (emit w True c env dc) = snd (emit w False c env dc)
    \<and> (snd (emit w False c env dc) \<noteq> Success \<longrightarrow>
         emit w True c env dc = emit w False c env dc)
    \<and> (snd (emit w False c env dc) = Success \<longrightarrow>
         (\<exists>pre.
            fst (emit w False c env dc) =
              pre @ [Stdout (''# Datacenter ('' @ env @ '') Specific Vars:'')]
                @ printVars w (entries w c env dc DatacenterVars)
                @ [Stdout (''# Datacenter ('' @ env @ '') Specific Secrets:'')]
            \<and> fst (emit w True c env dc) =
              pre @ (if dc \<noteq> ''''
                     then [Stdout (''# Datacenter ('' @ dc @ '') Specific Vars:'')]
                            @ printVars w (entries w c env dc DatacenterVars)
                     else [])))"
proof -
  have none: "entries w c env dc DatacenterSecrets = []"
    using assms by (simp add: entries_def rangeMap_empty)
  show ?thesis
  proof (cases "snd (printSecrets w (entries w c env dc GlobalSecrets))")
    case (Some e)
    then show ?thesis by (simp add: emit_global_fails)
  next
    case None
    note g = this
    show ?thesis
    proof (cases "snd (printSecrets w (entries w c env dc EnvironmentSecrets))")
      case (Some e)
      with g show ?thesis by (simp add: emit_environment_fails)
    next
      case None
      let ?pre = "printGlobalVars w c env dc
        @ fst (printSecrets w (entries w c env dc GlobalSecrets))
        @ printEnvironmentVars w c env dc
        @ fst (printSecrets w (entries w c env dc EnvironmentSecrets))"
      have v2: "emit w False c env dc =
        (?pre @ [Stdout (''# Datacenter ('' @ env @ '') Specific Vars:'')]
           @ printVars w (entries w c env dc DatacenterVars)
           @ [Stdout (''# Datacenter ('' @ env @ '') Specific Secrets:'')], Success)"
        using g None by (simp add: emit_reaches_datacenter printDatacenter_v2 none)
      have v1: "emit w True c env dc =
        (?pre @ (if dc \<noteq> []
                 then [Stdout (''# Datacenter ('' @ dc @ '') Specific Vars:'')]
                        @ printVars w (entries w c env dc DatacenterVars)
                 else []), Success)"
        using g None by (simp add: emit_reaches_datacenter printDatacenter_legacy)
      show ?thesis
        unfolding v1 v2 by (intro conjI impI exI [where x = ?pre]) simp_all
    qed
  qed
qed

text \<open>The two layouts of \<open>v2_config\<close> for \<^verbatim>\<open>-e dev -d us_east\<close>.\<close>

theorem layouts_differ_in_datacenter_section_witness:
  "fst (emit (sample_world [] [''vars'']) False v2_config ''dev'' ''us_east'') =
     [Stdout ''# Setting Variables for:'', Stdout ''# Environment: dev'',
      Stdout ''# Datacenter: us_east'', Stdout ''# Global Vars:'', Stdout ''# Global Secrets:'',
      Stdout ''# Environment (dev) Vars:'', Stdout ''# Environment (dev) Secrets:'']
     @ [Stdout ''# Datacenter (dev) Specific Vars:'',
        Stdout (''export vars='' @ [dquote] @ ''us-east-1'' @ [dquote]),
        Stdout ''# Datacenter (dev) Specific Secrets:'']
   \<and> fst (emit (sample_world [] [''vars'']) True v2_config ''dev'' ''us_east'') =
     [Stdout ''# Setting Variables for:'', Stdout ''# Environment: dev'',
      Stdout ''# Datacenter: us_east'', Stdout ''# Global Vars:'', Stdout ''# Global Secrets:'',
      Stdout ''# Environment (dev) Vars:'', Stdout ''# Environment (dev) Secrets:'']
     @ [Stdout ''# Datacenter (us_east) Specific Vars:'',
        Stdout (''export vars='' @ [dquote] @ ''us-east-1'' @ [dquote])]
   \<and> snd (emit (sample_world [] [''vars'']) True v2_config ''dev'' ''us_east'')
       = snd (emit (sample_world [] [''vars'']) False v2_config ''dev'' ''us_east'')"
proof -
  have a: "bucket_map v2_config ''dev'' ''us_east'' DatacenterSecrets = Map.empty"
    by (simp add: model_defs sample_defs)
  from layouts_differ_in_datacenter_section [OF a, of "sample_world [] [''vars'']"]
  have "snd (emit (sample_world [] [''vars'']) True v2_config ''dev'' ''us_east'')
       = snd (emit (sample_world [] [''vars'']) False v2_config ''dev'' ''us_east'')"
    by blast
  then show ?thesis by (simp add: model_defs sample_defs)
qed

text \<open>
  Claim C3. A fetch that meets no secret (the client cannot be built, the read fails, or
  there is no record at the path) is the last event of the run: nothing is printed or
  fetched after it, and the run exits with the error of that fetch and code 6. A run that
  exits with code 6 ends with such a fetch. What a run printed is a prefix of what the
  run prints on a secret store that answers every fetch the first store answered in the
  same way, and so of the full run on a store in which every secret exists.
\<close>

theorem first_failing_fetch_aborts:
  "(fst (Action w env dc f m) = pre @ Fetch p # post \<and> (\<forall>d. vault w p \<noteq> Secret d) \<longrightarrow>
      post = []
      \<and> (\<exists>msg. GetVaultSecret w p = Inl msg \<and> snd (Action w env dc f m) = ExitError msg 6)
      \<and> exit_code (snd (Action w env dc f m)) = 6)
   \<and> (exit_code (snd (Action w env dc f m)) = 6 \<longrightarrow>
        (\<exists>pre p msg. fst (Action w env dc f m) = pre @ [Fetch p]
           \<and> GetVaultSecret w p = Inl msg
           \<and> snd (Action w env dc f m) = ExitError msg 6))
   \<and> ((\<forall>p d. vault w p = Secret d \<longrightarrow> v p = Secret d) \<longrightarrow>
        prefix (stdout_of (fst (Action w env dc f m)))
          (stdout_of (fst (Action (w\<lparr>vault := v\<rparr>) env dc f m))))
   \<and> ((\<forall>d. vault w p \<noteq> Secret d) \<longleftrightarrow> (\<exists>msg. GetVaultSecret w p = Inl msg))"
proof -
  have a: "post = []
      \<and> (\<exists>msg. GetVaultSecret w p = Inl msg \<and> snd (Action w env dc f m) = ExitError msg 6)
      \<and> exit_code (snd (Action w env dc f m)) = 6"
    if "fst (Action w env dc f m) = pre @ Fetch p # post" and "\<forall>d. vault w p \<noteq> Secret d"
  proof -
    from fail_fast_Action [of w env dc f m] that
    have "post = [] \<and> (\<exists>msg. GetVaultSecret w p = Inl msg
            \<and> snd (Action w env dc f m) = ExitError msg VaultErrorCode)"
      unfolding fail_fast_def by blast
    then show ?thesis by (auto simp: VaultErrorCode_def)
  qed
  have b: "\<exists>pre p msg. fst (Action w env dc f m) = pre @ [Fetch p]
           \<and> GetVaultSecret w p = Inl msg
           \<and> snd (Action w env dc f m) = ExitError msg 6"
    if "exit_code (snd (Action w env dc f m)) = 6"
    using Action_exit_6 [OF that] by (simp add: VaultErrorCode_def)
  have c: "(\<forall>d. vault w p \<noteq> Secret d) \<longleftrightarrow> (\<exists>msg. GetVaultSecret w p = Inl msg)"
    by (cases "vault w p") (simp_all add: GetVaultSecret_def)
  from a b c Action_more_secrets [of w v env dc f m] show ?thesis by blast
qed

text \<open>
  The run on \<^verbatim>\<open>secrets.yml\<close>: the secret \<open>A\<close> is printed, the fetch for \<open>B\<close> meets no
  record and ends the run with code 6.
\<close>

theorem first_failing_fetch_aborts_witness:
  "Action (sample_world [''A'', ''B''] []) ''dev'' '''' ''secrets.yml'' False =
     ([ReadFile ''/work/secrets.yml'', Unmarshal V2,
       Stdout ''# Setting Variables for:'', Stdout ''# Environment: dev'',
       Stdout ''# Global Vars:'', Stdout ''# Global Secrets:'',
       Fetch ''/kv/a'', Stdout (''export A='' @ [dquote] @ ''s3cr3t'' @ [dquote] @ '' # /kv/a''),
       Fetch ''/kv/b''],
      ExitError ''Vault - No secret at path: /kv/b'' 6)
   \<and> prefix
        (stdout_of (fst (Action (sample_world [''A'', ''B''] []) ''dev'' '''' ''secrets.yml''
                           False)))
        (stdout_of (fst (Action
           ((sample_world [''A'', ''B''] [])
              \<lparr>vault := vault_with_b\<rparr>)
           ''dev'' '''' ''secrets.yml'' False)))"
proof -
  let ?w = "sample_world [''A'', ''B''] []"
  let ?pre = "[ReadFile ''/work/secrets.yml'', Unmarshal V2,
       Stdout ''# Setting Variables for:'', Stdout ''# Environment: dev'',
       Stdout ''# Global Vars:'', Stdout ''# Global Secrets:'',
       Fetch ''/kv/a'', Stdout (''export A='' @ [dquote] @ ''s3cr3t'' @ [dquote] @ '' # /kv/a'')]"
  have tr: "fst (Action ?w ''dev'' '''' ''secrets.yml'' False) = ?pre @ Fetch ''/kv/b'' # []"
    by (simp add: model_defs sample_defs)
  have bad: "\<forall>d. vault ?w ''/kv/b'' \<noteq> Secret d"
    by (simp add: sample_world_def)
  have msg: "GetVaultSecret ?w ''/kv/b'' = Inl ''Vault - No secret at path: /kv/b''"
    by (simp add: GetVaultSecret_def sample_world_def)
  have ext: "\<forall>p d. vault ?w p = Secret d \<longrightarrow>
               vault_with_b p = Secret d"
    by (simp add: vault_with_b_def sample_world_def)
  note inst = first_failing_fetch_aborts
    [where w = ?w and env = "''dev''" and dc = "''''" and f = "''secrets.yml''" and m = False
       and pre = ?pre and p = "''/kv/b''" and post = "[]"
       and v = vault_with_b]
  from inst tr bad obtain msg' where
    "GetVaultSecret ?w ''/kv/b'' = Inl msg'"
    "snd (Action ?w ''dev'' '''' ''secrets.yml'' False) = ExitError msg' 6"
    by blast
  with msg
  have 1: "snd (Action ?w ''dev'' '''' ''secrets.yml'' False)
             = ExitError ''Vault - No secret at path: /kv/b'' 6"
    by simp
  from inst ext
  have 2: "prefix (stdout_of (fst (Action ?w ''dev'' '''' ''secrets.yml'' False)))
        (stdout_of (fst (Action
           (?w \<lparr>vault := vault_with_b\<rparr>)
           ''dev'' '''' ''secrets.yml'' False)))"
    by blast
  from tr 1 2 show ?thesis by (simp add: prod_eq_iff)
qed

text \<open>
  Claim C4, on the legacy document \<open>doc_v1\<close> with \<^verbatim>\<open>-e dev -d us_east\<close>, in a run that
  would visit the datacenter vars in the order \<^verbatim>\<open>vars\<close>. The loader decodes into the
  current shape first and, when that fails, into the legacy shape; that succeeds, the
  loader keeps the result in \<^verbatim>\<open>configV1\<close> and sets \<^verbatim>\<open>legacy\<close>. The result is not used:
  the action prints from \<^verbatim>\<open>config\<close>, the value the failed first decode left behind, so
  the var of the flat datacenter mapping is not printed, and the run is the same when the
  second decode returns an empty value. The order of the two decodes, the flag and the
  exit when both fail are as claimed (lemma \<open>loadConfig_cases\<close>).
\<close>

theorem legacy_result_is_not_used:
  "loadConfig (sample_world [] [''vars'']) doc_v1 =
     ([Unmarshal V2, Unmarshal V1],
      Inr \<lparr>config = v1_partial, configV1 = translateV1 v2_config, legacy = True\<rparr>)
   \<and> env1_Dcs (index zeroEnvironmentV1 (Environments1 (translateV1 v2_config)) ''dev'')
        ''us_east'' = Some [''vars'' \<mapsto> ''us-east-1'']
   \<and> range_order (sample_world [] [''vars'']) DatacenterVars = [''vars'']
   \<and> Action (sample_world [] [''vars'']) ''dev'' ''us_east'' ''variables.yml'' False =
       ([ReadFile ''/work/variables.yml'', Unmarshal V2, Unmarshal V1]
          @ fst (emit (sample_world [] [''vars'']) True v1_partial ''dev'' ''us_east''),
        Success)
   \<and> stdout_of (fst (Action (sample_world [] [''vars'']) ''dev'' ''us_east'' ''variables.yml''
                        False)) =
       [''# Setting Variables for:'', ''# Environment: dev'', ''# Datacenter: us_east'',
        ''# Global Vars:'', ''# Global Secrets:'', ''# Environment (dev) Vars:'',
        ''# Environment (dev) Secrets:'', ''# Datacenter (us_east) Specific Vars:'']
   \<and> Action ((sample_world [] [''vars''])\<lparr>unmarshal_v1 := \<lambda>b. (zeroConfigV1, None)\<rparr>)
         ''dev'' ''us_east'' ''variables.yml'' False
       = Action (sample_world [] [''vars'']) ''dev'' ''us_east'' ''variables.yml'' False"
proof -
  have l: "loadConfig (sample_world [] [''vars'']) doc_v1 =
     ([Unmarshal V2, Unmarshal V1],
      Inr \<lparr>config = v1_partial, configV1 = translateV1 v2_config, legacy = True\<rparr>)"
    by (simp add: loadConfig_def sample_world_def)
  have d: "env1_Dcs (index zeroEnvironmentV1 (Environments1 (translateV1 v2_config)) ''dev'')
        ''us_east'' = Some [''vars'' \<mapsto> ''us-east-1'']"
    by (simp add: index_def translateV1_def v2_config_def)
  have r: "range_order (sample_world [] [''vars'']) DatacenterVars = [''vars'']"
    by (simp add: sample_world_def)
  have a: "Action (sample_world [] [''vars'']) ''dev'' ''us_east'' ''variables.yml'' False =
       ([ReadFile ''/work/variables.yml'', Unmarshal V2, Unmarshal V1]
          @ fst (emit (sample_world [] [''vars'']) True v1_partial ''dev'' ''us_east''),
        Success)"
    by (simp add: model_defs sample_defs)
  have s: "stdout_of (fst (Action (sample_world [] [''vars'']) ''dev'' ''us_east''
                        ''variables.yml'' False)) =
       [''# Setting Variables for:'', ''# Environment: dev'', ''# Datacenter: us_east'',
        ''# Global Vars:'', ''# Global Secrets:'', ''# Environment (dev) Vars:'',
        ''# Environment (dev) Secrets:'', ''# Datacenter (us_east) Specific Vars:'']"
    by (simp add: model_defs sample_defs)
  have u: "Action ((sample_world [] [''vars''])\<lparr>unmarshal_v1 := \<lambda>b. (zeroConfigV1, None)\<rparr>)
         ''dev'' ''us_east'' ''variables.yml'' False
       = Action (sample_world [] [''vars'']) ''dev'' ''us_east'' ''variables.yml'' False"
    by (simp add: model_defs sample_defs)
  from l d r a s u show ?thesis by blast
qed

text \<open>
  Claim C5 as stated fails: \<^verbatim>\<open>secrets.yml\<close> is a document of the current shape, and the
  run that visits the global secret \<open>B\<close> first, which has no record, ends before the
  environment sections. Neither datacenter banner is printed.
\<close>

theorem aborted_run_counterexample:
  "unmarshal_v2 (sample_world [''B'', ''A''] []) doc_secrets = (secrets_config, None)
   \<and> stdout_of (fst (Action (sample_world [''B'', ''A''] []) ''dev'' '''' ''secrets.yml'' False))
       = [''# Setting Variables for:'', ''# Environment: dev'', ''# Global Vars:'',
          ''# Global Secrets:'']
   \<and> ''# Datacenter (dev) Specific Vars:''
        \<notin> set (stdout_of (fst (Action (sample_world [''B'', ''A''] []) ''dev'' ''''
                                   ''secrets.yml'' False)))
   \<and> ''# Datacenter (dev) Specific Secrets:''
        \<notin> set (stdout_of (fst (Action (sample_world [''B'', ''A''] []) ''dev'' ''''
                                   ''secrets.yml'' False)))
   \<and> snd (Action (sample_world [''B'', ''A''] []) ''dev'' '''' ''secrets.yml'' False)
       = ExitError ''Vault - No secret at path: /kv/b'' 6"
  by (simp add: model_defs sample_defs)

text \<open>
  Claim C5, as amended. In a run on a document of the current shape that reaches the
  datacenter stage (no fetch of a global or environment secret failed), standard output
  ends with the banner \<^verbatim>\<open># Datacenter (<env>) Specific Vars:\<close>, the vars of the
  datacenter, the banner \<^verbatim>\<open># Datacenter (<env>) Specific Secrets:\<close> and the secrets of the
  datacenter, whether \<open>dc\<close> is empty or not. The two buckets are looked up by \<open>dc\<close>: when
  the environment \<open>env\<close> has a datacenter \<open>d\<close> under the key \<open>dc\<close>, the entries visited
  are the entries of \<open>d\<close> whose keys are in the order of the run, all entries of \<open>d\<close> in
  that order when it is one Go can take; an absent environment or datacenter key gives
  two empty buckets.
\<close>

theorem v2_datacenter_sections:
  assumes "env \<noteq> ''''" and "read_file w (abs_path w f) = Some bytes"
    and "unmarshal_v2 w bytes = (c, None)"
    and "snd (printSecrets w (entries w c env dc GlobalSecrets)) = None"
    and "snd (printSecrets w (entries w c env dc EnvironmentSecrets)) = None"
  shows "stdout_of (fst (Action w env dc f m)) =
      stdout_of (printGlobalVars w c env dc)
      @ stdout_of (fst (printSecrets w (entries w c env dc GlobalSecrets)))
      @ stdout_of (printEnvironmentVars w c env dc)
      @ stdout_of (fst (printSecrets w (entries w c env dc EnvironmentSecrets)))
      @ [''# Datacenter ('' @ env @ '') Specific Vars:'']
      @ map (\<lambda>(k, v). exportVar w k v) (entries w c env dc DatacenterVars)
      @ [''# Datacenter ('' @ env @ '') Specific Secrets:'']
      @ stdout_of (fst (printSecrets w (entries w c env dc DatacenterSecrets)))
    \<and> (Environments c env = Some e \<and> env_Dcs e dc = Some d \<longrightarrow>
         (\<forall>k v. (k, v) \<in> set (entries w c env dc DatacenterVars) \<longleftrightarrow>
                  k \<in> set (range_order w DatacenterVars) \<and> dc_Vars d k = Some v)
         \<and> (\<forall>k p. (k, p) \<in> set (entries w c env dc DatacenterSecrets) \<longleftrightarrow>
                  k \<in> set (range_order w DatacenterSecrets) \<and> dc_Secrets d k = Some p)
         \<and> (valid_order (dc_Vars d) (range_order w DatacenterVars) \<longrightarrow>
              map fst (entries w c env dc DatacenterVars) = range_order w DatacenterVars
              \<and> (\<forall>k v. (k, v) \<in> set (entries w c env dc DatacenterVars) \<longleftrightarrow>
                         dc_Vars d k = Some v))
         \<and> (valid_order (dc_Secrets d) (range_order w DatacenterSecrets) \<longrightarrow>
              map fst (entries w c env dc DatacenterSecrets) = range_order w DatacenterSecrets
              \<and> (\<forall>k p. (k, p) \<in> set (entries w c env dc DatacenterSecrets) \<longleftrightarrow>
                         dc_Secrets d k = Some p)))
    \<and> (Environments c env = None \<or> env_Dcs (environmentOf c env) dc = None \<longrightarrow>
         entries w c env dc DatacenterVars = [] \<and> entries w c env dc DatacenterSecrets = [])"
proof -
  have "stdout_of (fst (Action w env dc f m)) = stdout_of (fst (emit w False c env dc))"
    by (simp add: Action_v2 [OF assms(1,2,3)] stdout_of_append enableMlock_silent)
  then have out: "stdout_of (fst (Action w env dc f m)) =
      stdout_of (printGlobalVars w c env dc)
      @ stdout_of (fst (printSecrets w (entries w c env dc GlobalSecrets)))
      @ stdout_of (printEnvironmentVars w c env dc)
      @ stdout_of (fst (printSecrets w (entries w c env dc EnvironmentSecrets)))
      @ [''# Datacenter ('' @ env @ '') Specific Vars:'']
      @ map (\<lambda>(k, v). exportVar w k v) (entries w c env dc DatacenterVars)
      @ [''# Datacenter ('' @ env @ '') Specific Secrets:'']
      @ stdout_of (fst (printSecrets w (entries w c env dc DatacenterSecrets)))"
    by (simp add: emit_reaches_datacenter [OF assms(4,5)] printDatacenter_v2
          stdout_of_append stdout_of_printVars)
  have present:
    "(\<forall>k v. (k, v) \<in> set (entries w c env dc DatacenterVars) \<longleftrightarrow>
                  k \<in> set (range_order w DatacenterVars) \<and> dc_Vars d k = Some v)
     \<and> (\<forall>k p. (k, p) \<in> set (entries w c env dc DatacenterSecrets) \<longleftrightarrow>
                  k \<in> set (range_order w DatacenterSecrets) \<and> dc_Secrets d k = Some p)
     \<and> (valid_order (dc_Vars d) (range_order w DatacenterVars) \<longrightarrow>
              map fst (entries w c env dc DatacenterVars) = range_order w DatacenterVars
              \<and> (\<forall>k v. (k, v) \<in> set (entries w c env dc DatacenterVars) \<longleftrightarrow>
                         dc_Vars d k = Some v))
     \<and> (valid_order (dc_Secrets d) (range_order w DatacenterSecrets) \<longrightarrow>
              map fst (entries w c env dc DatacenterSecrets) = range_order w DatacenterSecrets
              \<and> (\<forall>k p. (k, p) \<in> set (entries w c env dc DatacenterSecrets) \<longleftrightarrow>
                         dc_Secrets d k = Some p))"
    if "Environments c env = Some e" and "env_Dcs e dc = Some d"
    unfolding present_datacenter_entries [OF that]
    by (auto simp: set_rangeMap rangeMap_valid_order(1) dest: valid_order_key)
  have absent: "entries w c env dc DatacenterVars = [] \<and> entries w c env dc DatacenterSecrets = []"
    if "Environments c env = None \<or> env_Dcs (environmentOf c env) dc = None"
    using that absent_environment_entries(3,4) [of c env w dc]
      absent_datacenter_entries [of c env dc w] by blast
  from out present absent show ?thesis by blast
qed

text \<open>
  The runs on \<open>doc_v2\<close> with \<^verbatim>\<open>-e dev -d us_east\<close>, which prints the var of that
  datacenter under the banner with \<^verbatim>\<open>dev\<close>, and with \<^verbatim>\<open>-e dev\<close> and no datacenter.
\<close>

theorem v2_datacenter_sections_witness:
  "stdout_of (fst (Action (sample_world [] [''vars'']) ''dev'' ''us_east'' ''v2.yml'' False)) =
     [''# Setting Variables for:'', ''# Environment: dev'', ''# Datacenter: us_east'',
      ''# Global Vars:'', ''# Global Secrets:'', ''# Environment (dev) Vars:'',
      ''# Environment (dev) Secrets:'', ''# Datacenter (dev) Specific Vars:'',
      ''export vars='' @ [dquote] @ ''us-east-1'' @ [dquote],
      ''# Datacenter (dev) Specific Secrets:'']
   \<and> entries (sample_world [] [''vars'']) v2_config ''dev'' ''us_east'' DatacenterVars
       = [(''vars'', ''us-east-1'')]
   \<and> stdout_of (fst (Action (sample_world [] [''vars'']) ''dev'' '''' ''v2.yml'' False)) =
     [''# Setting Variables for:'', ''# Environment: dev'', ''# Global Vars:'',
      ''# Global Secrets:'', ''# Environment (dev) Vars:'', ''# Environment (dev) Secrets:'',
      ''# Datacenter (dev) Specific Vars:'', ''# Datacenter (dev) Specific Secrets:'']"
proof -
  let ?w = "sample_world [] [''vars'']"
  let ?d = "\<lparr>dc_Vars = [''vars'' \<mapsto> ''us-east-1''], dc_Secrets = Map.empty\<rparr>"
  let ?e = "\<lparr>env_Vars = Map.empty, env_Secrets = Map.empty, env_Dcs = [''us_east'' \<mapsto> ?d]\<rparr>"
  have a: "''dev'' \<noteq> ''''" by simp
  have b: "read_file ?w (abs_path ?w ''v2.yml'') = Some doc_v2"
    by (simp add: sample_world_def)
  have c: "unmarshal_v2 ?w doc_v2 = (v2_config, None)"
    by (simp add: sample_world_def doc_v1_def doc_v2_def)
  have d: "snd (printSecrets ?w (entries ?w v2_config ''dev'' dc GlobalSecrets)) = None"
    "snd (printSecrets ?w (entries ?w v2_config ''dev'' dc EnvironmentSecrets)) = None" for dc
    by (simp_all add: model_defs sample_defs)
  have e: "Environments v2_config ''dev'' = Some ?e" "env_Dcs ?e ''us_east'' = Some ?d"
    by (simp_all add: v2_config_def)
  have v: "valid_order (dc_Vars ?d) (range_order ?w DatacenterVars)"
    "valid_order (dc_Secrets ?d) (range_order ?w DatacenterSecrets)"
    by (simp_all add: valid_order_def sample_world_def)
  have n: "env_Dcs (environmentOf v2_config ''dev'') '''' = None"
    by (simp add: environmentOf_def index_def v2_config_def)
  from v2_datacenter_sections [OF a b c d, where e = ?e and d = ?d and m = False
         and dc = "''us_east''"] e v
  have 1: "stdout_of (fst (Action ?w ''dev'' ''us_east'' ''v2.yml'' False)) =
      stdout_of (printGlobalVars ?w v2_config ''dev'' ''us_east'')
      @ stdout_of (fst (printSecrets ?w (entries ?w v2_config ''dev'' ''us_east'' GlobalSecrets)))
      @ stdout_of (printEnvironmentVars ?w v2_config ''dev'' ''us_east'')
      @ stdout_of (fst (printSecrets ?w (entries ?w v2_config ''dev'' ''us_east'' EnvironmentSecrets)))
      @ [''# Datacenter ('' @ ''dev'' @ '') Specific Vars:'']
      @ map (\<lambda>(k, v). exportVar ?w k v) (entries ?w v2_config ''dev'' ''us_east'' DatacenterVars)
      @ [''# Datacenter ('' @ ''dev'' @ '') Specific Secrets:'']
      @ stdout_of (fst (printSecrets ?w (entries ?w v2_config ''dev'' ''us_east'' DatacenterSecrets)))"
    and 2: "map fst (entries ?w v2_config ''dev'' ''us_east'' DatacenterVars)
              = range_order ?w DatacenterVars"
    and 3: "\<forall>k v. (k, v) \<in> set (entries ?w v2_config ''dev'' ''us_east'' DatacenterVars) \<longleftrightarrow>
                         dc_Vars ?d k = Some v"
    and 4: "map fst (entries ?w v2_config ''dev'' ''us_east'' DatacenterSecrets)
              = range_order ?w DatacenterSecrets"
    by blast+
  have ro: "range_order ?w DatacenterVars = [''vars'']"
    "range_order ?w DatacenterSecrets = []"
    by (simp_all add: sample_world_def)
  from arg_cong [OF 2 [unfolded ro], of length]
  have "length (entries ?w v2_config ''dev'' ''us_east'' DatacenterVars) = 1"
    by simp
  then obtain kv where kv: "entries ?w v2_config ''dev'' ''us_east'' DatacenterVars = [kv]"
    by (auto simp: length_Suc_conv)
  with 3 have "dc_Vars ?d (fst kv) = Some (snd kv)"
    by (metis list.set_intros(1) prod.collapse)
  then have "kv = (''vars'', ''us-east-1'')"
    by (cases kv) (simp split: if_splits)
  with kv have dv: "entries ?w v2_config ''dev'' ''us_east'' DatacenterVars
       = [(''vars'', ''us-east-1'')]" by simp
  from 4 [unfolded ro]
  have ds: "entries ?w v2_config ''dev'' ''us_east'' DatacenterSecrets = []"
    by simp
  have g: "stdout_of (printGlobalVars ?w v2_config ''dev'' ''us_east'')
      @ stdout_of (fst (printSecrets ?w (entries ?w v2_config ''dev'' ''us_east'' GlobalSecrets)))
      @ stdout_of (printEnvironmentVars ?w v2_config ''dev'' ''us_east'')
      @ stdout_of (fst (printSecrets ?w (entries ?w v2_config ''dev'' ''us_east'' EnvironmentSecrets)))
      = [''# Setting Variables for:'', ''# Environment: dev'', ''# Datacenter: us_east'',
      ''# Global Vars:'', ''# Global Secrets:'', ''# Environment (dev) Vars:'',
      ''# Environment (dev) Secrets:'']"
    by (simp add: model_defs sample_defs)
  have q: "exportVar ?w ''vars'' ''us-east-1'' = ''export vars='' @ [dquote] @ ''us-east-1'' @ [dquote]"
    by (simp add: exportVar_def Quote_def flush_def appendEscapedRune_def dquote_def backslash_def)
  from 1 have first: "stdout_of (fst (Action ?w ''dev'' ''us_east'' ''v2.yml'' False)) =
     [''# Setting Variables for:'', ''# Environment: dev'', ''# Datacenter: us_east'',
      ''# Global Vars:'', ''# Global Secrets:'', ''# Environment (dev) Vars:'',
      ''# Environment (dev) Secrets:'', ''# Datacenter (dev) Specific Vars:'',
      ''export vars='' @ [dquote] @ ''us-east-1'' @ [dquote],
      ''# Datacenter (dev) Specific Secrets:'']"
    unfolding dv ds by (simp add: g [simplified] q [simplified])
  from v2_datacenter_sections [OF a b c d, where m = False and dc = "''''"] n
  have 5: "stdout_of (fst (Action ?w ''dev'' '''' ''v2.yml'' False)) =
      stdout_of (printGlobalVars ?w v2_config ''dev'' '''')
      @ stdout_of (fst (printSecrets ?w (entries ?w v2_config ''dev'' '''' GlobalSecrets)))
      @ stdout_of (printEnvironmentVars ?w v2_config ''dev'' '''')
      @ stdout_of (fst (printSecrets ?w (entries ?w v2_config ''dev'' '''' EnvironmentSecrets)))
      @ [''# Datacenter ('' @ ''dev'' @ '') Specific Vars:'']
      @ map (\<lambda>(k, v). exportVar ?w k v) (entries ?w v2_config ''dev'' '''' DatacenterVars)
      @ [''# Datacenter ('' @ ''dev'' @ '') Specific Secrets:'']
      @ stdout_of (fst (printSecrets ?w (entries ?w v2_config ''dev'' '''' DatacenterSecrets)))"
    and 6: "entries ?w v2_config ''dev'' '''' DatacenterVars = []"
           "entries ?w v2_config ''dev'' '''' DatacenterSecrets = []"
    by blast+
  have h: "stdout_of (printGlobalVars ?w v2_config ''dev'' '''')
      @ stdout_of (fst (printSecrets ?w (entries ?w v2_config ''dev'' '''' GlobalSecrets)))
      @ stdout_of (printEnvironmentVars ?w v2_config ''dev'' '''')
      @ stdout_of (fst (printSecrets ?w (entries ?w v2_config ''dev'' '''' EnvironmentSecrets)))
      = [''# Setting Variables for:'', ''# Environment: dev'',
      ''# Global Vars:'', ''# Global Secrets:'', ''# Environment (dev) Vars:'',
      ''# Environment (dev) Secrets:'']"
    by (simp add: model_defs sample_defs)
  from 5 have second: "stdout_of (fst (Action ?w ''dev'' '''' ''v2.yml'' False)) =
     [''# Setting Variables for:'', ''# Environment: dev'', ''# Global Vars:'',
      ''# Global Secrets:'', ''# Environment (dev) Vars:'', ''# Environment (dev) Secrets:'',
      ''# Datacenter (dev) Specific Vars:'', ''# Datacenter (dev) Specific Secrets:'']"
    unfolding 6 by (simp add: h [simplified])
  from first dv second show ?thesis by blast
qed

text \<open>
  Claim C6, as amended. The value is printed with the verb \<^verbatim>\<open>%q\<close>, which quotes and
  escapes: for every var \<open>(k, v)\<close> the line is \<^verbatim>\<open>export k="q"\<close>, and for every secret whose
  value is the string \<open>v\<close> the line is \<^verbatim>\<open>export k="q" # path\<close>, where \<open>q\<close> is \<open>v\<close>
  escaped (\<open>quoteFrom w [] v\<close>). The escaped text is determined as follows. Every byte
  below \<^verbatim>\<open>0x7F\<close> of the value is written on its own, by \<open>appendEscapedRune\<close>, between
  the escaped texts of what precedes it and of what follows it: a double quote and a
  backslash get a backslash in front, every other printable ASCII character (so also a
  dollar sign) is copied, a control character is written as an escape that starts with a
  backslash (a newline as \<^verbatim>\<open>\n\<close>). So a value of printable ASCII characters other than
  the double quote and the backslash is printed as it is. A value that is a run of bytes
  from \<^verbatim>\<open>0x7F\<close> on is written as the library writes that run (\<open>quote_other\<close>).
\<close>

theorem export_lines_are_go_quoted:
  "printVars w [(k, v)] =
     [Stdout (''export '' @ k @ ''='' @ [dquote] @ quoteFrom w [] v @ [dquote])]
   \<and> (vault w path = Secret data \<and> data ''value'' = Some (DString v) \<longrightarrow>
        fst (printSecrets w [(k, path)]) =
          [Fetch path,
           Stdout (''export '' @ k @ ''='' @ [dquote] @ quoteFrom w [] v @ [dquote]
                   @ '' # '' @ path)])
   \<and> ((of_char c :: nat) < 0x7F \<longrightarrow>
        quoteFrom w [] (a @ c # b) = quoteFrom w [] a @ appendEscapedRune c @ quoteFrom w [] b)
   \<and> quoteFrom w [] [] = []
   \<and> (list_all (\<lambda>c. (0x20::nat) \<le> of_char c \<and> (of_char c :: nat) < 0x7F
               \<and> c \<noteq> dquote \<and> c \<noteq> backslash) p \<longrightarrow>
        quoteFrom w [] p = p)
   \<and> (r \<noteq> [] \<and> list_all (\<lambda>c. \<not> (of_char c :: nat) < 0x7F) r \<longrightarrow>
        quoteFrom w [] r = quote_other w r)
   \<and> appendEscapedRune dquote = [backslash, dquote]
   \<and> appendEscapedRune backslash = [backslash, backslash]
   \<and> appendEscapedRune (CHR ''$'') = ''$''
   \<and> appendEscapedRune (CHR 0x0A) = [backslash, CHR ''n'']
   \<and> ((0x20::nat) \<le> of_char d \<and> (of_char d :: nat) < 0x7F \<and> d \<noteq> dquote \<and> d \<noteq> backslash \<longrightarrow>
        appendEscapedRune d = [d])
   \<and> ((of_char e :: nat) < 0x20 \<longrightarrow> hd (appendEscapedRune e) = backslash)"
proof -
  have var: "printVars w [(k, v)] =
     [Stdout (''export '' @ k @ ''='' @ [dquote] @ quoteFrom w [] v @ [dquote])]"
    by (simp add: exportVar_def Quote_def)
  have sec: "fst (printSecrets w [(k, path)]) =
          [Fetch path,
           Stdout (''export '' @ k @ ''='' @ [dquote] @ quoteFrom w [] v @ [dquote]
                   @ '' # '' @ path)]"
    if "vault w path = Secret data" and "data ''value'' = Some (DString v)"
    using that by (simp add: GetVaultSecret_Secret exportSecret_def Quote_def)
  have split: "quoteFrom w [] (a @ c # b)
                 = quoteFrom w [] a @ appendEscapedRune c @ quoteFrom w [] b"
    if "(of_char c :: nat) < 0x7F"
    using that by (rule quoteFrom_split)
  have nil: "quoteFrom w [] [] = []"
    by (simp add: flush_def)
  have plain: "quoteFrom w [] p = p"
    if "list_all (\<lambda>c. (0x20::nat) \<le> of_char c \<and> (of_char c :: nat) < 0x7F
               \<and> c \<noteq> dquote \<and> c \<noteq> backslash) p"
    using Quote_plain [OF that, of w] by (simp add: Quote_def)
  have run: "quoteFrom w [] r = quote_other w r"
    if "r \<noteq> []" and "list_all (\<lambda>c. \<not> (of_char c :: nat) < 0x7F) r"
    using quoteFrom_other [OF that(2), of w "[]"] that(1) by (simp add: flush_def)
  have esc: "appendEscapedRune dquote = [backslash, dquote]"
    "appendEscapedRune backslash = [backslash, backslash]"
    "appendEscapedRune (CHR ''$'') = ''$''"
    "appendEscapedRune (CHR 0x0A) = [backslash, CHR ''n'']"
    by (simp_all add: appendEscapedRune_def dquote_def backslash_def)
  have copy: "appendEscapedRune d = [d]"
    if "(0x20::nat) \<le> of_char d" and "d \<noteq> dquote" and "d \<noteq> backslash"
    using that by (simp add: appendEscapedRune_def)
  have ctl: "hd (appendEscapedRune e) = backslash" if "(of_char e :: nat) < 0x20"
    using that by (simp add: appendEscapedRune_def)
  show ?thesis
    using var sec split nil plain run esc copy ctl by blast
qed

text \<open>
  A var and a secret with the value \<^verbatim>\<open>a"b\<close>, the plain value \<^verbatim>\<open>s3cr3t\<close>, the two bytes
  of a letter outside ASCII, the dollar sign and the tabulator.
\<close>

theorem export_lines_are_go_quoted_witness:
  "printVars ((sample_world [] [])
       \<lparr>vault := \<lambda>p. Secret [''value'' \<mapsto> DString [CHR ''a'', dquote, CHR ''b'']]\<rparr>)
       [(''TOK'', [CHR ''a'', dquote, CHR ''b''])]
     = [Stdout (''export TOK='' @ [dquote] @ [CHR ''a'', backslash, dquote, CHR ''b''] @ [dquote])]
   \<and> fst (printSecrets ((sample_world [] [])
       \<lparr>vault := \<lambda>p. Secret [''value'' \<mapsto> DString [CHR ''a'', dquote, CHR ''b'']]\<rparr>)
       [(''TOK'', ''/kv/q'')])
     = [Fetch ''/kv/q'',
        Stdout (''export TOK='' @ [dquote] @ [CHR ''a'', backslash, dquote, CHR ''b''] @ [dquote]
                @ '' # /kv/q'')]
   \<and> quoteFrom ((sample_world [] [])
       \<lparr>vault := \<lambda>p. Secret [''value'' \<mapsto> DString [CHR ''a'', dquote, CHR ''b'']]\<rparr>) []
       ''s3cr3t'' = ''s3cr3t''
   \<and> quoteFrom ((sample_world [] [])
       \<lparr>vault := \<lambda>p. Secret [''value'' \<mapsto> DString [CHR ''a'', dquote, CHR ''b'']]\<rparr>) []
       [CHR 0xC3, CHR 0xA9] = [CHR 0xC3, CHR 0xA9]
   \<and> appendEscapedRune (CHR ''$'') = ''$''
   \<and> hd (appendEscapedRune (CHR 0x09)) = backslash"
proof -
  let ?v = "[CHR ''a'', dquote, CHR ''b'']"
  let ?w = "(sample_world [] [])\<lparr>vault := \<lambda>p. Secret [''value'' \<mapsto> DString ?v]\<rparr>"
  have s: "vault ?w ''/kv/q'' = Secret [''value'' \<mapsto> DString ?v]"
    by simp
  have d: "[''value'' \<mapsto> DString ?v] ''value'' = Some (DString ?v)"
    by simp
  have c: "(of_char dquote :: nat) < 0x7F"
    by (simp add: dquote_def)
  have p: "list_all (\<lambda>c. (0x20::nat) \<le> of_char c \<and> (of_char c :: nat) < 0x7F
             \<and> c \<noteq> dquote \<and> c \<noteq> backslash) ''s3cr3t''"
    by (simp add: dquote_def backslash_def)
  have r: "[CHR 0xC3, CHR 0xA9] \<noteq> [] \<and> list_all (\<lambda>c. \<not> (of_char c :: nat) < 0x7F) [CHR 0xC3, CHR 0xA9]"
    by simp
  have dl: "(0x20::nat) \<le> of_char (CHR ''$'') \<and> (of_char (CHR ''$'') :: nat) < 0x7F
            \<and> CHR ''$'' \<noteq> dquote \<and> CHR ''$'' \<noteq> backslash"
    by (simp add: dquote_def backslash_def)
  have e: "(of_char (CHR 0x09) :: nat) < 0x20"
    by simp
  have o: "quote_other ?w [CHR 0xC3, CHR 0xA9] = [CHR 0xC3, CHR 0xA9]"
    by (simp add: sample_world_def)
  have ab: "quoteFrom ?w [] ''a'' = ''a''" "quoteFrom ?w [] ''b'' = ''b''"
    by (simp_all add: flush_def appendEscapedRune_def dquote_def backslash_def)
  from export_lines_are_go_quoted
         [where w = ?w and k = "''TOK''" and v = "''a'' @ dquote # ''b''" and path = "''/kv/q''"
            and data = "[''value'' \<mapsto> DString ?v]" and a = "''a''" and c = dquote
            and b = "''b''" and p = "''s3cr3t''" and r = "[CHR 0xC3, CHR 0xA9]"
            and d = "CHR ''$''" and e = "CHR 0x09"]
       s d c p r dl e o ab
  show ?thesis by (simp add: flush_def appendEscapedRune_def dquote_def backslash_def)
qed

text \<open>
  Claim C6 as stated fails: the value \<^verbatim>\<open>a"b\<close> is not printed between two double quotes
  as it is, the embedded double quote is escaped.
\<close>

theorem unescaped_quote_counterexample:
  "printVars (sample_world [] []) [(''FOO'', [CHR ''a'', dquote, CHR ''b''])]
     \<noteq> [Stdout (''export FOO='' @ [dquote] @ [CHR ''a'', dquote, CHR ''b''] @ [dquote])]
   \<and> printVars (sample_world [] []) [(''FOO'', [CHR ''a'', dquote, CHR ''b''])]
     = [Stdout (''export FOO='' @ [dquote] @ [CHR ''a'', backslash, dquote, CHR ''b''] @ [dquote])]"
  by (simp add: exportVar_def Quote_def flush_def appendEscapedRune_def dquote_def backslash_def)

text \<open>
  Claim C7. With an empty environment name the action returns the exit error
  \<^verbatim>\<open>environment is required\<close> with code 2 right after the memory-lock call: nothing is
  written to standard output, no file is read, nothing is decoded and no secret is fetched.
\<close>

theorem environment_required:
  "Action w '''' dc varsFile mlockBool =
     (enableMlock w mlockBool, ExitError ''environment is required'' 2)
   \<and> exit_code (snd (Action w '''' dc varsFile mlockBool)) = 2
   \<and> stdout_of (fst (Action w '''' dc varsFile mlockBool)) = []
   \<and> (\<forall>name. ReadFile name \<notin> set (fst (Action w '''' dc varsFile mlockBool)))
   \<and> (\<forall>s. Unmarshal s \<notin> set (fst (Action w '''' dc varsFile mlockBool)))
   \<and> (\<forall>p. Fetch p \<notin> set (fst (Action w '''' dc varsFile mlockBool)))"
  by (simp add: Action_def EnvErrorCode_def enableMlock_silent)

text \<open>
  Claim C8 as stated fails: the environment \<^verbatim>\<open>dev\<close> is absent from \<^verbatim>\<open>secrets.yml\<close>, and
  the run exits with code 6, since the global secret \<open>B\<close> has no record.
\<close>

theorem absent_environment_counterexample:
  "unmarshal_v2 (sample_world [''A'', ''B''] []) doc_secrets = (secrets_config, None)
   \<and> Environments secrets_config ''dev'' = None
   \<and> valid_order (Secrets secrets_config) [''A'', ''B'']
   \<and> Action (sample_world [''A'', ''B''] []) ''dev'' '''' ''secrets.yml'' False =
       ([ReadFile ''/work/secrets.yml'', Unmarshal V2,
         Stdout ''# Setting Variables for:'', Stdout ''# Environment: dev'',
         Stdout ''# Global Vars:'', Stdout ''# Global Secrets:'',
         Fetch ''/kv/a'', Stdout (''export A='' @ [dquote] @ ''s3cr3t'' @ [dquote] @ '' # /kv/a''),
         Fetch ''/kv/b''],
        ExitError ''Vault - No secret at path: /kv/b'' 6)
   \<and> exit_code (snd (Action (sample_world [''A'', ''B''] []) ''dev'' '''' ''secrets.yml'' False))
       \<noteq> 0"
  by (simp add: model_defs sample_defs valid_order_def fmt_q.simps) auto

text \<open>
  Claim C8, as amended. An environment name absent from \<^verbatim>\<open>environments\<close> gives empty
  environment and datacenter buckets, and a datacenter name absent from \<^verbatim>\<open>dcs\<close> gives
  empty datacenter buckets. Absence raises no error: when no fetch of a global or
  environment secret fails, the run prints the banners of the absent sections without any
  export line and exits with code 0.
\<close>

theorem absent_layers_are_empty:
  "(Environments c env = None \<longrightarrow>
      entries w c env dc EnvironmentVars = [] \<and> entries w c env dc EnvironmentSecrets = []
      \<and> entries w c env dc DatacenterVars = [] \<and> entries w c env dc DatacenterSecrets = [])
   \<and> (env_Dcs (environmentOf c env) dc = None \<longrightarrow>
        entries w c env dc DatacenterVars = [] \<and> entries w c env dc DatacenterSecrets = [])
   \<and> ((Environments c env = None \<or> env_Dcs (environmentOf c env) dc = None)
        \<and> snd (printSecrets w (entries w c env dc GlobalSecrets)) = None
        \<and> snd (printSecrets w (entries w c env dc EnvironmentSecrets)) = None \<longrightarrow>
        emit w l c env dc =
          (printGlobalVars w c env dc
             @ fst (printSecrets w (entries w c env dc GlobalSecrets))
             @ printEnvironmentVars w c env dc
             @ fst (printSecrets w (entries w c env dc EnvironmentSecrets))
             @ (if l then (if dc \<noteq> ''''
                           then [Stdout (''# Datacenter ('' @ dc @ '') Specific Vars:'')]
                           else [])
                else [Stdout (''# Datacenter ('' @ env @ '') Specific Vars:''),
                      Stdout (''# Datacenter ('' @ env @ '') Specific Secrets:'')]),
           Success)
        \<and> (env \<noteq> '''' \<and> read_file w (abs_path w f) = Some bytes
             \<and> loadConfig w bytes = (tr, Inr \<lparr>config = c, configV1 = cl, legacy = l\<rparr>) \<longrightarrow>
             exit_code (snd (Action w env dc f m)) = 0))"
proof -
  have dcs: "entries w c env dc DatacenterVars = [] \<and> entries w c env dc DatacenterSecrets = []"
    if "Environments c env = None \<or> env_Dcs (environmentOf c env) dc = None"
    using that absent_environment_entries(3,4) [of c env w dc]
      absent_datacenter_entries [of c env dc w] by blast
  have run: "emit w l c env dc =
          (printGlobalVars w c env dc
             @ fst (printSecrets w (entries w c env dc GlobalSecrets))
             @ printEnvironmentVars w c env dc
             @ fst (printSecrets w (entries w c env dc EnvironmentSecrets))
             @ (if l then (if dc \<noteq> ''''
                           then [Stdout (''# Datacenter ('' @ dc @ '') Specific Vars:'')]
                           else [])
                else [Stdout (''# Datacenter ('' @ env @ '') Specific Vars:''),
                      Stdout (''# Datacenter ('' @ env @ '') Specific Secrets:'')]),
           Success)"
    if "Environments c env = None \<or> env_Dcs (environmentOf c env) dc = None"
      and "snd (printSecrets w (entries w c env dc GlobalSecrets)) = None"
      and "snd (printSecrets w (entries w c env dc EnvironmentSecrets)) = None"
    using dcs [OF that(1)] that(2,3)
    by (cases l) (simp_all add: emit_reaches_datacenter printDatacenter_v2 printDatacenter_legacy)
  have code: "exit_code (snd (Action w env dc f m)) = 0"
    if "Environments c env = None \<or> env_Dcs (environmentOf c env) dc = None"
      and "snd (printSecrets w (entries w c env dc GlobalSecrets)) = None"
      and "snd (printSecrets w (entries w c env dc EnvironmentSecrets)) = None"
      and "env \<noteq> ''''" and "read_file w (abs_path w f) = Some bytes"
      and "loadConfig w bytes = (tr, Inr \<lparr>config = c, configV1 = cl, legacy = l\<rparr>)"
    using run [OF that(1,2,3)] Action_emit [OF that(4,5,6), of dc m] by simp
  from dcs run code absent_environment_entries [of c env w dc] show ?thesis
    by blast
qed

text \<open>
  The environment \<^verbatim>\<open>qa\<close> is absent from \<^verbatim>\<open>novalue.yml\<close>, the datacenter \<^verbatim>\<open>us_west\<close>
  from the environment \<^verbatim>\<open>dev\<close> of \<^verbatim>\<open>v2.yml\<close>.
\<close>

theorem absent_layers_are_empty_witness:
  "Action (sample_world [''TOK''] []) ''qa'' ''us_west'' ''novalue.yml'' False =
     ([ReadFile ''/work/novalue.yml'', Unmarshal V2,
       Stdout ''# Setting Variables for:'', Stdout ''# Environment: qa'',
       Stdout ''# Datacenter: us_west'',
       Stdout ''# Global Vars:'', Stdout ''# Global Secrets:'', Fetch ''/kv/n'',
       Stdout ''export TOK=%!q(<nil>) # /kv/n'',
       Stdout ''# Environment (qa) Vars:'', Stdout ''# Environment (qa) Secrets:'',
       Stdout ''# Datacenter (qa) Specific Vars:'',
       Stdout ''# Datacenter (qa) Specific Secrets:''], Success)
   \<and> exit_code (snd (Action (sample_world [''TOK''] []) ''qa'' ''us_west'' ''novalue.yml'' False))
       = 0
   \<and> exit_code (snd (Action (sample_world [] []) ''dev'' ''us_west'' ''v2.yml'' False))
       = 0"
proof -
  let ?w = "sample_world [''TOK''] []"
  let ?v = "sample_world [] []"
  have a: "Environments novalue_config ''qa'' = None
             \<or> env_Dcs (environmentOf novalue_config ''qa'') ''us_west'' = None"
    by (simp add: novalue_config_def)
  have b: "snd (printSecrets ?w (entries ?w novalue_config ''qa'' ''us_west'' GlobalSecrets)) = None"
    "snd (printSecrets ?w (entries ?w novalue_config ''qa'' ''us_west'' EnvironmentSecrets)) = None"
    by (simp_all add: model_defs sample_defs)
  have c: "''qa'' \<noteq> ''''" "read_file ?w (abs_path ?w ''novalue.yml'') = Some doc_novalue"
    "loadConfig ?w doc_novalue =
       ([Unmarshal V2], Inr \<lparr>config = novalue_config, configV1 = zeroConfigV1, legacy = False\<rparr>)"
    by (simp_all add: loadConfig_def sample_defs)
  from absent_layers_are_empty
         [where c = novalue_config and env = "''qa''" and dc = "''us_west''" and w = ?w
            and l = False and f = "''novalue.yml''" and bytes = doc_novalue
            and tr = "[Unmarshal V2]" and cl = zeroConfigV1 and m = False] a b c
  have 1: "exit_code (snd (Action ?w ''qa'' ''us_west'' ''novalue.yml'' False)) = 0"
    by blast
  have a': "Environments v2_config ''dev'' = None
             \<or> env_Dcs (environmentOf v2_config ''dev'') ''us_west'' = None"
    by (simp add: v2_config_def environmentOf_def index_def)
  have b': "snd (printSecrets ?v (entries ?v v2_config ''dev'' ''us_west'' GlobalSecrets)) = None"
    "snd (printSecrets ?v (entries ?v v2_config ''dev'' ''us_west'' EnvironmentSecrets)) = None"
    by (simp_all add: model_defs sample_defs)
  have c': "''dev'' \<noteq> ''''" "read_file ?v (abs_path ?v ''v2.yml'') = Some doc_v2"
    "loadConfig ?v doc_v2 =
       ([Unmarshal V2], Inr \<lparr>config = v2_config, configV1 = zeroConfigV1, legacy = False\<rparr>)"
    by (simp_all add: loadConfig_def sample_defs)
  from absent_layers_are_empty
         [where c = v2_config and env = "''dev''" and dc = "''us_west''" and w = ?v
            and l = False and f = "''v2.yml''" and bytes = doc_v2
            and tr = "[Unmarshal V2]" and cl = zeroConfigV1 and m = False] a' b' c'
  have 2: "exit_code (snd (Action ?v ''dev'' ''us_west'' ''v2.yml'' False)) = 0"
    by blast
  have 3: "Action ?w ''qa'' ''us_west'' ''novalue.yml'' False =
     ([ReadFile ''/work/novalue.yml'', Unmarshal V2,
       Stdout ''# Setting Variables for:'', Stdout ''# Environment: qa'',
       Stdout ''# Datacenter: us_west'',
       Stdout ''# Global Vars:'', Stdout ''# Global Secrets:'', Fetch ''/kv/n'',
       Stdout ''export TOK=%!q(<nil>) # /kv/n'',
       Stdout ''# Environment (qa) Vars:'', Stdout ''# Environment (qa) Secrets:'',
       Stdout ''# Datacenter (qa) Specific Vars:'',
       Stdout ''# Datacenter (qa) Specific Secrets:''], Success)"
    by (simp add: model_defs sample_defs)
  from 1 2 3 show ?thesis by blast
qed

text \<open>
  Claim C9 as stated fails. Two runs on \<^verbatim>\<open>secrets.yml\<close> and the same secret store, in
  which \<open>A\<close> has a record and \<open>B\<close> has none: the run that visits \<open>A\<close> first prints its
  export line before it aborts, the run that visits \<open>B\<close> first prints none. The two
  outputs are not the same lines in another order.
\<close>

theorem iteration_order_counterexample:
  "(\<forall>b. valid_order (bucket_map secrets_config ''dev'' '''' b)
          (range_order (sample_world [''A'', ''B''] []) b))
   \<and> (\<forall>b. valid_order (bucket_map secrets_config ''dev'' '''' b)
          (range_order (sample_world [''B'', ''A''] []) b))
   \<and> sample_world [''B'', ''A''] [] =
       (sample_world [''A'', ''B''] [])
         \<lparr>range_order := range_order (sample_world [''B'', ''A''] [])\<rparr>
   \<and> stdout_of (fst (Action (sample_world [''A'', ''B''] []) ''dev'' '''' ''secrets.yml'' False))
       = [''# Setting Variables for:'', ''# Environment: dev'', ''# Global Vars:'',
          ''# Global Secrets:'', ''export A='' @ [dquote] @ ''s3cr3t'' @ [dquote] @ '' # /kv/a'']
   \<and> stdout_of (fst (Action (sample_world [''B'', ''A''] []) ''dev'' '''' ''secrets.yml'' False))
       = [''# Setting Variables for:'', ''# Environment: dev'', ''# Global Vars:'',
          ''# Global Secrets:'']
   \<and> mset (stdout_of
        (fst (Action (sample_world [''A'', ''B''] []) ''dev'' '''' ''secrets.yml'' False)))
       \<noteq> mset (stdout_of
        (fst (Action (sample_world [''B'', ''A''] []) ''dev'' '''' ''secrets.yml'' False)))"
proof -
  have ab: "stdout_of
      (fst (Action (sample_world [''A'', ''B''] []) ''dev'' '''' ''secrets.yml'' False))
       = [''# Setting Variables for:'', ''# Environment: dev'', ''# Global Vars:'',
          ''# Global Secrets:'', ''export A='' @ [dquote] @ ''s3cr3t'' @ [dquote] @ '' # /kv/a'']"
    by (simp add: model_defs sample_defs)
  have ba: "stdout_of
      (fst (Action (sample_world [''B'', ''A''] []) ''dev'' '''' ''secrets.yml'' False))
       = [''# Setting Variables for:'', ''# Environment: dev'', ''# Global Vars:'',
          ''# Global Secrets:'']"
    by (simp add: model_defs sample_defs)
  have "length (stdout_of
      (fst (Action (sample_world [''A'', ''B''] []) ''dev'' '''' ''secrets.yml'' False)))
     \<noteq> length (stdout_of
      (fst (Action (sample_world [''B'', ''A''] []) ''dev'' '''' ''secrets.yml'' False)))"
    unfolding ab ba by simp
  then have ne: "mset (stdout_of
        (fst (Action (sample_world [''A'', ''B''] []) ''dev'' '''' ''secrets.yml'' False)))
       \<noteq> mset (stdout_of
        (fst (Action (sample_world [''B'', ''A''] []) ''dev'' '''' ''secrets.yml'' False)))"
    by (metis size_mset)
  have upd: "sample_world [''B'', ''A''] [] =
       (sample_world [''A'', ''B''] [])
         \<lparr>range_order := range_order (sample_world [''B'', ''A''] [])\<rparr>"
    by (simp add: sample_world_def)
  from sample_orders_valid ab ba ne upd show ?thesis by blast
qed

text \<open>
  Claim C9, as amended. Two runs on the same input and secret store, each visiting every
  bucket in an order Go can take, exit with the same code and print the same banners in the
  same sequence. Under every banner but the last, the export lines of one run are those of
  the other in some order; so they are under the last banner too, unless the run exits with
  code 6. Once the document is decoded, the output of a run is its sections: every line is
  a banner or an export line under a banner.
\<close>

theorem runs_agree_up_to_order:
  assumes "\<forall>c b. run_config w f = Some c \<longrightarrow>
             valid_order (bucket_map c env dc b) (range_order w b)"
    and "\<forall>c b. run_config w f = Some c \<longrightarrow>
             valid_order (bucket_map c env dc b) (ord b)"
  shows "exit_code (snd (Action (w\<lparr>range_order := ord\<rparr>) env dc f m))
           = exit_code (snd (Action w env dc f m))
    \<and> filter is_banner (stdout_of (fst (Action (w\<lparr>range_order := ord\<rparr>) env dc f m)))
        = filter is_banner (stdout_of (fst (Action w env dc f m)))
    \<and> map fst (sections (stdout_of (fst (Action (w\<lparr>range_order := ord\<rparr>) env dc f m))))
        = map fst (sections (stdout_of (fst (Action w env dc f m))))
    \<and> list_all2 same_section
        (butlast (sections (stdout_of (fst (Action (w\<lparr>range_order := ord\<rparr>) env dc f m)))))
        (butlast (sections (stdout_of (fst (Action w env dc f m)))))
    \<and> (exit_code (snd (Action w env dc f m)) \<noteq> 6 \<longrightarrow>
         list_all2 same_section
           (sections (stdout_of (fst (Action (w\<lparr>range_order := ord\<rparr>) env dc f m))))
           (sections (stdout_of (fst (Action w env dc f m)))))
    \<and> (env \<noteq> '''' \<and> run_config w f \<noteq> None \<longrightarrow>
         concat (map (\<lambda>s. fst s # snd s) (sections (stdout_of (fst (Action w env dc f m)))))
           = stdout_of (fst (Action w env dc f m))
         \<and> concat (map (\<lambda>s. fst s # snd s)
               (sections (stdout_of (fst (Action (w\<lparr>range_order := ord\<rparr>) env dc f m)))))
           = stdout_of (fst (Action (w\<lparr>range_order := ord\<rparr>) env dc f m)))"
proof (cases "env = [] \<or> run_config w f = None")
  case True
  show ?thesis
    unfolding Action_order_no_emit [OF True]
    using True by (auto simp: same_section_refl list_all2_butlast)
next
  case False
  then have env: "env \<noteq> []" by simp
  from False obtain c where c: "run_config w f = Some c" by auto
  from c obtain bytes tr l where rd: "read_file w (abs_path w f) = Some bytes"
    and ld: "loadConfig w bytes = (tr, Inr l)" and cl: "config l = c"
    by (rule run_config_Some)
  let ?w' = "w\<lparr>range_order := ord\<rparr>"
  let ?c = "config l"
  from assms c cl
  have va: "\<forall>b. valid_order (bucket_map ?c env dc b) (range_order w b)"
    and vb: "\<forall>b. valid_order (bucket_map ?c env dc b) (ord b)"
    by simp_all
  have rd': "read_file ?w' (abs_path ?w' f) = Some bytes" using rd by simp
  have ld': "loadConfig ?w' bytes = (tr, Inr l)" using ld by (simp add: order_update)
  note A = Action_emit [OF env rd ld, of dc m]
  note A' = Action_emit [OF env rd' ld', of dc m]
  note S = stdout_of_decoded [OF env rd ld, of dc m]
  note S' = stdout_of_decoded [OF env rd' ld', of dc m]
  have s: "snd (printSecrets ?w' (entries ?w' ?c env dc b)) = None
              \<longleftrightarrow> snd (printSecrets w (entries w ?c env dc b)) = None" for b
    using secrets_succeed_order [where ord = ord and w = w and c = ?c and env = env
            and dc = dc and b = b] va vb
    by blast
  have same: "snd (emit ?w' (legacy l) ?c env dc) = Success
                \<longleftrightarrow> snd (emit w (legacy l) ?c env dc) = Success"
    by (simp only: emit_Success_iff s)
  then have code: "exit_code (snd (Action ?w' env dc f m)) = exit_code (snd (Action w env dc f m))"
    by (simp add: A A' emit_exit_code)
  have sec: "sections (stdout_of (fst (Action w env dc f m)))
               = run_sections w (legacy l) ?c env dc"
    "sections (stdout_of (fst (Action ?w' env dc f m)))
               = run_sections ?w' (legacy l) ?c env dc"
    by (simp_all only: S S' sections_emit)
  note R = run_sections_order [OF va vb, of "legacy l"]
  have ban: "map fst (sections (stdout_of (fst (Action ?w' env dc f m))))
        = map fst (sections (stdout_of (fst (Action w env dc f m))))"
    by (simp only: sec R(1))
  then have fil: "filter is_banner (stdout_of (fst (Action ?w' env dc f m)))
        = filter is_banner (stdout_of (fst (Action w env dc f m)))"
    by (simp only: banners_of_sections)
  have but: "list_all2 same_section
        (butlast (sections (stdout_of (fst (Action ?w' env dc f m)))))
        (butlast (sections (stdout_of (fst (Action w env dc f m)))))"
    by (simp only: sec R(2))
  have full: "list_all2 same_section
           (sections (stdout_of (fst (Action ?w' env dc f m))))
           (sections (stdout_of (fst (Action w env dc f m))))"
    if "exit_code (snd (Action w env dc f m)) \<noteq> 6"
  proof -
    from that have "snd (emit w (legacy l) ?c env dc) = Success"
      by (simp add: A emit_exit_code split: if_splits)
    from R(3) [OF this] show ?thesis by (simp only: sec)
  qed
  have cat: "concat (map (\<lambda>s. fst s # snd s) (sections (stdout_of (fst (Action w env dc f m)))))
           = stdout_of (fst (Action w env dc f m))"
    "concat (map (\<lambda>s. fst s # snd s) (sections (stdout_of (fst (Action ?w' env dc f m)))))
           = stdout_of (fst (Action ?w' env dc f m))"
    by (simp_all only: S S' stdout_of_emit flat_sections [OF wf_run_sections])
  from code fil ban but full cat show ?thesis by blast
qed

text \<open>
  Runs on \<^verbatim>\<open>secrets.yml\<close> that visit the global secrets as \<open>A, B\<close> and as \<open>B, A\<close>: two
  with a store that has every secret, two with the store in which \<open>B\<close> has no record.
\<close>

theorem runs_agree_up_to_order_witness:
  "exit_code (snd (Action
      ((sample_world [''A'', ''B''] [])
         \<lparr>vault := \<lambda>p. Secret [''value'' \<mapsto> DString p],
          range_order := range_order (sample_world [''B'', ''A''] [])\<rparr>)
      ''dev'' '''' ''secrets.yml'' False)) = 0
   \<and> list_all2 same_section
       (sections (stdout_of (fst (Action
          ((sample_world [''A'', ''B''] [])
             \<lparr>vault := \<lambda>p. Secret [''value'' \<mapsto> DString p],
              range_order := range_order (sample_world [''B'', ''A''] [])\<rparr>)
          ''dev'' '''' ''secrets.yml'' False))))
       [(''# Setting Variables for:'', []), (''# Environment: dev'', []),
        (''# Global Vars:'', []),
        (''# Global Secrets:'',
         [''export A='' @ [dquote] @ ''/kv/a'' @ [dquote] @ '' # /kv/a'',
          ''export B='' @ [dquote] @ ''/kv/b'' @ [dquote] @ '' # /kv/b'']),
        (''# Environment (dev) Vars:'', []), (''# Environment (dev) Secrets:'', []),
        (''# Datacenter (dev) Specific Vars:'', []),
        (''# Datacenter (dev) Specific Secrets:'', [])]
   \<and> exit_code (snd (Action
        ((sample_world [''A'', ''B''] [])
           \<lparr>range_order := range_order (sample_world [''B'', ''A''] [])\<rparr>)
        ''dev'' '''' ''secrets.yml'' False)) = 6
   \<and> list_all2 same_section
       (butlast (sections (stdout_of (fst (Action
          ((sample_world [''A'', ''B''] [])
             \<lparr>range_order := range_order (sample_world [''B'', ''A''] [])\<rparr>)
          ''dev'' '''' ''secrets.yml'' False)))))
       [(''# Setting Variables for:'', []), (''# Environment: dev'', []),
        (''# Global Vars:'', [])]
   \<and> filter is_banner (stdout_of (fst (Action
          ((sample_world [''A'', ''B''] [])
             \<lparr>range_order := range_order (sample_world [''B'', ''A''] [])\<rparr>)
          ''dev'' '''' ''secrets.yml'' False)))
       = [''# Setting Variables for:'', ''# Environment: dev'', ''# Global Vars:'',
          ''# Global Secrets:'']
   \<and> concat (map (\<lambda>s. fst s # snd s)
         (sections (stdout_of (fst (Action
            ((sample_world [''A'', ''B''] [])
               \<lparr>vault := \<lambda>p. Secret [''value'' \<mapsto> DString p]\<rparr>)
            ''dev'' '''' ''secrets.yml'' False)))))
       = [''# Setting Variables for:'', ''# Environment: dev'', ''# Global Vars:'',
          ''# Global Secrets:'',
          ''export A='' @ [dquote] @ ''/kv/a'' @ [dquote] @ '' # /kv/a'',
          ''export B='' @ [dquote] @ ''/kv/b'' @ [dquote] @ '' # /kv/b'',
          ''# Environment (dev) Vars:'', ''# Environment (dev) Secrets:'',
          ''# Datacenter (dev) Specific Vars:'', ''# Datacenter (dev) Specific Secrets:'']"
proof -
  let ?v = "sample_world [''A'', ''B''] []"
  let ?w = "?v\<lparr>vault := \<lambda>p. Secret [''value'' \<mapsto> DString p]\<rparr>"
  let ?ord = "range_order (sample_world [''B'', ''A''] [])"
  have rc: "run_config ?w ''secrets.yml'' = Some secrets_config"
    "run_config ?v ''secrets.yml'' = Some secrets_config"
    by (simp_all add: run_config_def loadConfig_def sample_defs)
  have a: "\<forall>c b. run_config ?w ''secrets.yml'' = Some c \<longrightarrow>
             valid_order (bucket_map c ''dev'' '''' b) (range_order ?w b)"
    "\<forall>c b. run_config ?w ''secrets.yml'' = Some c \<longrightarrow>
             valid_order (bucket_map c ''dev'' '''' b) (?ord b)"
    "\<forall>c b. run_config ?v ''secrets.yml'' = Some c \<longrightarrow>
             valid_order (bucket_map c ''dev'' '''' b) (range_order ?v b)"
    "\<forall>c b. run_config ?v ''secrets.yml'' = Some c \<longrightarrow>
             valid_order (bucket_map c ''dev'' '''' b) (?ord b)"
    using sample_orders_valid by (simp_all add: rc)
  have ok: "exit_code (snd (Action ?w ''dev'' '''' ''secrets.yml'' False)) = 0"
    "exit_code (snd (Action ?v ''dev'' '''' ''secrets.yml'' False)) = 6"
    by (simp_all add: model_defs sample_defs)
  have env: "''dev'' \<noteq> '''' \<and> run_config ?w ''secrets.yml'' \<noteq> None"
    by (simp add: rc)
  have out: "stdout_of (fst (Action ?w ''dev'' '''' ''secrets.yml'' False))
     = [''# Setting Variables for:'', ''# Environment: dev'', ''# Global Vars:'',
        ''# Global Secrets:'',
        ''export A='' @ [dquote] @ ''/kv/a'' @ [dquote] @ '' # /kv/a'',
        ''export B='' @ [dquote] @ ''/kv/b'' @ [dquote] @ '' # /kv/b'',
        ''# Environment (dev) Vars:'', ''# Environment (dev) Secrets:'',
        ''# Datacenter (dev) Specific Vars:'', ''# Datacenter (dev) Specific Secrets:'']"
    "stdout_of (fst (Action ?v ''dev'' '''' ''secrets.yml'' False))
       = [''# Setting Variables for:'', ''# Environment: dev'', ''# Global Vars:'',
          ''# Global Secrets:'', ''export A='' @ [dquote] @ ''s3cr3t'' @ [dquote] @ '' # /kv/a'']"
    by (simp_all add: model_defs sample_defs)
  have sec: "sections (stdout_of (fst (Action ?w ''dev'' '''' ''secrets.yml'' False)))
     = [(''# Setting Variables for:'', []), (''# Environment: dev'', []),
        (''# Global Vars:'', []),
        (''# Global Secrets:'',
         [''export A='' @ [dquote] @ ''/kv/a'' @ [dquote] @ '' # /kv/a'',
          ''export B='' @ [dquote] @ ''/kv/b'' @ [dquote] @ '' # /kv/b'']),
        (''# Environment (dev) Vars:'', []), (''# Environment (dev) Secrets:'', []),
        (''# Datacenter (dev) Specific Vars:'', []),
        (''# Datacenter (dev) Specific Secrets:'', [])]"
    "butlast (sections (stdout_of (fst (Action ?v ''dev'' '''' ''secrets.yml'' False))))
     = [(''# Setting Variables for:'', []), (''# Environment: dev'', []),
        (''# Global Vars:'', [])]"
    "filter is_banner (stdout_of (fst (Action ?v ''dev'' '''' ''secrets.yml'' False)))
     = [''# Setting Variables for:'', ''# Environment: dev'', ''# Global Vars:'',
          ''# Global Secrets:'']"
    unfolding out by (simp_all add: is_banner_def)
  note good = runs_agree_up_to_order [where w = ?w and ord = ?ord and f = "''secrets.yml''"
      and env = "''dev''" and dc = "''''" and m = False, OF a(1,2)]
  note bad = runs_agree_up_to_order [where w = ?v and ord = ?ord and f = "''secrets.yml''"
      and env = "''dev''" and dc = "''''" and m = False, OF a(3,4)]
  from good ok(1) env
  have 1: "exit_code (snd (Action (?w\<lparr>range_order := ?ord\<rparr>) ''dev'' '''' ''secrets.yml'' False))
             = 0"
    and 2: "list_all2 same_section
           (sections (stdout_of (fst (Action (?w\<lparr>range_order := ?ord\<rparr>) ''dev'' ''''
              ''secrets.yml'' False))))
           (sections (stdout_of (fst (Action ?w ''dev'' '''' ''secrets.yml'' False))))"
    by simp_all
  from bad ok(2)
  have 3: "exit_code (snd (Action (?v\<lparr>range_order := ?ord\<rparr>) ''dev'' '''' ''secrets.yml'' False))
             = 6"
    and 4: "list_all2 same_section
           (butlast (sections (stdout_of (fst (Action (?v\<lparr>range_order := ?ord\<rparr>) ''dev'' ''''
              ''secrets.yml'' False)))))
           (butlast (sections (stdout_of (fst (Action ?v ''dev'' '''' ''secrets.yml'' False)))))"
    and 5: "filter is_banner (stdout_of (fst (Action (?v\<lparr>range_order := ?ord\<rparr>) ''dev'' ''''
              ''secrets.yml'' False)))
            = filter is_banner (stdout_of (fst (Action ?v ''dev'' '''' ''secrets.yml'' False)))"
    by simp_all
  from good env
  have 6: "concat (map (\<lambda>s. fst s # snd s)
             (sections (stdout_of (fst (Action ?w ''dev'' '''' ''secrets.yml'' False)))))
           = stdout_of (fst (Action ?w ''dev'' '''' ''secrets.yml'' False))"
    by simp
  from 1 2 3 4 5 6 [unfolded out(1)] show ?thesis unfolding sec by simp
qed

text \<open>
  Claim C10. When the fetch returns a secret whose data has no entry \<^verbatim>\<open>value\<close>, the loop
  prints \<^verbatim>\<open>export k=%!q(<nil>) # path\<close> and goes on with the next entry. A run on a
  document of the current shape in which every fetch returns a secret, with or without
  that entry, ends with success.
\<close>

theorem missing_value_is_printed:
  "(vault w path = Secret data \<and> data ''value'' = None \<longrightarrow>
      printSecrets w ((k, path) # kps) =
        (Fetch path # Stdout (''export '' @ k @ ''=%!q(<nil>) # '' @ path)
           # fst (printSecrets w kps),
         snd (printSecrets w kps)))
   \<and> (env \<noteq> '''' \<and> read_file w (abs_path w f) = Some bytes
        \<and> unmarshal_v2 w bytes = (c, None)
        \<and> (\<forall>b \<in> {GlobalSecrets, EnvironmentSecrets, DatacenterSecrets}.
              \<forall>(k, p) \<in> set (entries w c env dc b). \<exists>d. vault w p = Secret d) \<longrightarrow>
        snd (Action w env dc f m) = Success)"
proof -
  have line: "printSecrets w ((k, path) # kps) =
        (Fetch path # Stdout (''export '' @ k @ ''=%!q(<nil>) # '' @ path)
           # fst (printSecrets w kps),
         snd (printSecrets w kps))"
    if "vault w path = Secret data" and "data ''value'' = None"
    using that by (simp add: GetVaultSecret_Secret exportSecret_def case_prod_beta)
  have run: "snd (Action w env dc f m) = Success"
    if "env \<noteq> ''''" and "read_file w (abs_path w f) = Some bytes"
      and "unmarshal_v2 w bytes = (c, None)"
      and all: "\<forall>b \<in> {GlobalSecrets, EnvironmentSecrets, DatacenterSecrets}.
              \<forall>(k, p) \<in> set (entries w c env dc b). \<exists>d. vault w p = Secret d"
  proof -
    from all have ok: "snd (printSecrets w (entries w c env dc GlobalSecrets)) = None"
      "snd (printSecrets w (entries w c env dc EnvironmentSecrets)) = None"
      "snd (printSecrets w (entries w c env dc DatacenterSecrets)) = None"
      by (simp_all add: printSecrets_None_iff)
    from Action_v2 [OF that(1,2,3)]
    have "snd (Action w env dc f m) = snd (emit w False c env dc)"
      by simp
    also have "\<dots> = Success"
      by (simp add: emit_reaches_datacenter printDatacenter_v2 ok)
    finally show ?thesis .
  qed
  from line run show ?thesis by blast
qed

text \<open>The run on \<^verbatim>\<open>novalue.yml\<close>: the secret at \<^verbatim>\<open>/kv/n\<close> has no entry \<^verbatim>\<open>value\<close>.\<close>

theorem missing_value_is_printed_witness:
  "fst (Action (sample_world [''TOK''] []) ''dev'' '''' ''novalue.yml'' False) =
     [ReadFile ''/work/novalue.yml'', Unmarshal V2,
      Stdout ''# Setting Variables for:'', Stdout ''# Environment: dev'',
      Stdout ''# Global Vars:'', Stdout ''# Global Secrets:'', Fetch ''/kv/n'',
      Stdout ''export TOK=%!q(<nil>) # /kv/n'',
      Stdout ''# Environment (dev) Vars:'', Stdout ''# Environment (dev) Secrets:'',
      Stdout ''# Datacenter (dev) Specific Vars:'',
      Stdout ''# Datacenter (dev) Specific Secrets:'']
   \<and> snd (Action (sample_world [''TOK''] []) ''dev'' '''' ''novalue.yml'' False) = Success
   \<and> printSecrets (sample_world [''TOK''] []) [(''TOK'', ''/kv/n'')]
     = ([Fetch ''/kv/n'', Stdout ''export TOK=%!q(<nil>) # /kv/n''], None)"
proof -
  let ?w = "sample_world [''TOK''] []"
  have a: "vault ?w ''/kv/n'' = Secret Map.empty" "Map.empty ''value'' = None"
    by (simp_all add: sample_world_def)
  have b: "''dev'' \<noteq> ''''" by simp
  have c: "read_file ?w (abs_path ?w ''novalue.yml'') = Some doc_novalue"
    by (simp add: sample_world_def)
  have d: "unmarshal_v2 ?w doc_novalue = (novalue_config, None)"
    by (simp add: sample_defs)
  have e: "\<forall>b \<in> {GlobalSecrets, EnvironmentSecrets, DatacenterSecrets}.
             \<forall>(k, p) \<in> set (entries ?w novalue_config ''dev'' '''' b).
               \<exists>d. vault ?w p = Secret d"
    by (simp add: model_defs sample_defs)
  from missing_value_is_printed
         [where w = ?w and path = "''/kv/n''" and data = Map.empty and k = "''TOK''"
            and kps = "[]"] a
  have 1: "printSecrets ?w [(''TOK'', ''/kv/n'')]
     = ([Fetch ''/kv/n'', Stdout ''export TOK=%!q(<nil>) # /kv/n''], None)"
    by simp
  from missing_value_is_printed
         [where w = ?w and env = "''dev''" and f = "''novalue.yml''"
            and bytes = doc_novalue and dc = "''''" and m = False and c = novalue_config]
       b c d e
  have 2: "snd (Action ?w ''dev'' '''' ''novalue.yml'' False) = Success"
    by blast
  have 3: "fst (Action ?w ''dev'' '''' ''novalue.yml'' False) =
     [ReadFile ''/work/novalue.yml'', Unmarshal V2,
      Stdout ''# Setting Variables for:'', Stdout ''# Environment: dev'',
      Stdout ''# Global Vars:'', Stdout ''# Global Secrets:'', Fetch ''/kv/n'',
      Stdout ''export TOK=%!q(<nil>) # /kv/n'',
      Stdout ''# Environment (dev) Vars:'', Stdout ''# Environment (dev) Secrets:'',
      Stdout ''# Datacenter (dev) Specific Vars:'',
      Stdout ''# Datacenter (dev) Specific Secrets:'']"
    by (simp add: model_defs sample_defs)
  from 1 2 3 show ?thesis by blast
qed

end
